theory Spec2Isabelle
  imports Main
begin

section \<open>The create-image handler of the image router\<close>

text \<open>
  The development embeds \<open>imageRouter.createImage\<close>, the mutation of the lambda image
  router. The handler (1) rewrites the image URLs of the parameters to storage keys for
  the persisted batch configuration, (2) creates, inside one database transaction, a
  generation batch, the generations and one pending async task per generation,
  (3) starts one remote create-image call per generation without awaiting it, and
  (4) returns the batch and the generations. The continuations of the remote calls
  run later; they are the function \<open>onSettled\<close> below.

  JavaScript numbers are embedded as \<open>int\<close> (fractional numbers are left out), a thrown
  value as \<open>thrown\<close>, and every function that can throw returns \<open>thrown + 'a\<close>.
  Output on the debug logger and on the console is not part of the model.
\<close>

subsection \<open>Thrown values\<close>

text \<open>
  A thrown or rejected value is either an instance of \<open>Error\<close>, which always has a
  message, or some other value, whose \<open>message\<close> property may be missing. The values
  \<open>null\<close> and \<open>undefined\<close>, on which reading \<open>message\<close> throws, are left out: the
  remote caller rejects with error objects.
\<close>

datatype thrown = ErrorObj string | Other "string option"

fun message :: "thrown \<Rightarrow> string option" where
  "message (ErrorObj m) = Some m"
| "message (Other m) = m"

fun instanceofError :: "thrown \<Rightarrow> bool" where
  "instanceofError (ErrorObj m) = True"
| "instanceofError (Other m) = False"

text \<open>\<open>m || d\<close> on an optional string: a missing and an empty string are both falsy.\<close>

definition orElse :: "string option \<Rightarrow> string \<Rightarrow> string" where
  "orElse m d = (case m of None \<Rightarrow> d | Some s \<Rightarrow> if s = [] then d else s)"

subsection \<open>Input, rows and the database\<close>

type_synonym id = nat
type_synonym user_id = string

text \<open>
  The \<open>params\<close> object of \<open>createImageInputSchema\<close>. The field \<open>seed\<close> is
  \<open>z.number().nullable().optional()\<close>: \<open>None\<close> is a missing key, \<open>Some None\<close>
  the key with the value \<open>null\<close>, \<open>Some (Some n)\<close> the key with a number. The keys the
  schema passes through unchecked are the association list \<open>passthrough\<close>.
\<close>

record params =
  prompt :: string
  imageUrls :: "string list option"
  width :: "int option"
  height :: "int option"
  seed :: "int option option"
  steps :: "int option"
  cfg :: "int option"
  passthrough :: "(string \<times> string) list"

record CreateImageServicePayload =
  generationTopicId :: string
  provider :: string
  model :: string
  imageNum :: int
  params :: params

record ctx =
  userId :: user_id

text \<open>
  Modelled from the spec: the enum \<open>AsyncTaskStatus\<close> of \<open>@/types/asyncTask\<close> is not
  among the sources. The spec gives a task the statuses Pending, Success and Error.
\<close>

datatype AsyncTaskStatus = Pending | Success | Error

text \<open>
  Modelled from the spec: the enum \<open>AsyncTaskErrorType\<close> of \<open>@/types/asyncTask\<close> is
  not among the sources. The handler uses one kind of error, the server error.
\<close>

datatype AsyncTaskErrorType = ServerError

text \<open>
  Modelled from the spec: the enum \<open>AsyncTaskType\<close> of \<open>@/types/asyncTask\<close> is not
  among the sources. The handler creates tasks of one type, image generation.
\<close>

datatype AsyncTaskType = ImageGeneration

text \<open>
  Modelled from the spec: the class \<open>AsyncTaskError\<close> of \<open>@/types/asyncTask\<close> is not
  among the sources. The spec describes a structured error: a kind and a message.
\<close>

record AsyncTaskError =
  errorType :: AsyncTaskErrorType
  errorMessage :: string

text \<open>
  Modelled from the spec: the table \<open>generationBatches\<close> of \<open>@/database/schemas\<close> is
  not among the sources. A row has the identifier the database gives it and the
  columns the handler writes.
\<close>

record GenerationBatchRow =
  b_id :: id
  b_userId :: user_id
  b_generationTopicId :: string
  b_provider :: string
  b_model :: string
  b_prompt :: string
  b_width :: "int option"
  b_height :: "int option"
  b_config :: params

text \<open>
  Modelled from the spec: the type \<open>NewGeneration\<close> of \<open>@/database/schemas\<close> is not
  among the sources. It has the columns the handler fills in.
\<close>

record NewGeneration =
  n_userId :: user_id
  n_generationBatchId :: id
  n_seed :: "int option"

text \<open>
  Modelled from the spec: the table \<open>generations\<close> of \<open>@/database/schemas\<close> is not
  among the sources. A generation holds an optional seed, its batch and the reference
  to its task, which is null until it is written.
\<close>

record GenerationRow =
  g_id :: id
  g_userId :: user_id
  g_generationBatchId :: id
  g_seed :: "int option"
  g_asyncTaskId :: "id option"

text \<open>
  Modelled from the spec: the table \<open>asyncTasks\<close> of \<open>@/database/schemas\<close> is not
  among the sources. A task has an identity, a status and an optional structured
  error.
\<close>

record AsyncTaskRow =
  t_id :: id
  t_userId :: user_id
  t_status :: AsyncTaskStatus
  t_type :: AsyncTaskType
  t_error :: "AsyncTaskError option"

text \<open>
  Modelled from the spec: the relational store is not among the sources. It is the
  three tables, in the order of insertion, and the next identifier the database
  hands out.
\<close>

record database =
  generationBatches :: "GenerationBatchRow list"
  generations :: "GenerationRow list"
  asyncTasks :: "AsyncTaskRow list"
  nextId :: id

text \<open>
  The statements the handler sends to the database. Each of them may fail; the
  statements inside the transaction are named by the position of the generation they
  belong to, a status update by the task it is for.
\<close>

datatype db_op =
  InsertGenerationBatch
| InsertGenerations
| InsertAsyncTask nat
| UpdateGeneration nat
| Commit
| UpdateAsyncTask id

text \<open>The input of the remote create-image call.\<close>

record CreateImageCall =
  taskId :: id
  generationId :: id
  c_provider :: string
  c_model :: string
  c_params :: params

text \<open>How the future of a remote call settles.\<close>

datatype settlement = Resolved | Rejected thrown

text \<open>
  The collaborators of the handler, none of which is among the sources: the file
  service's \<open>getKeyFromFullUrl\<close>, \<open>generateUniqueSeeds\<close> of \<open>@/utils/number\<close>,
  \<open>createAsyncCaller\<close> (\<open>Some e\<close>: it throws \<open>e\<close>), the remote
  \<open>asyncCaller.image.createImage\<close> (how the future it returns for an input
  settles; \<open>None\<close>: it has not settled) and the failures of the database
  (\<open>dbError op = Some e\<close>: the statement \<open>op\<close> throws \<open>e\<close>).
\<close>

record env =
  getKeyFromFullUrl :: "string \<Rightarrow> thrown + string"
  generateUniqueSeeds :: "int \<Rightarrow> int list"
  createAsyncCaller :: "thrown option"
  remoteCreateImage :: "CreateImageCall \<Rightarrow> settlement option"
  dbError :: "db_op \<Rightarrow> thrown option"

subsection \<open>The database statements\<close>

text \<open>
  The relational store (the \<open>insert\<close>, \<open>update\<close> and \<open>transaction\<close> of the ORM) is
  not among the sources; every statement below is modelled from the spec. An insert
  appends its rows, gives them fresh identifiers and returns them; an update changes
  the rows its condition selects; a transaction whose body throws, or whose commit
  fails, leaves the database as it was and throws.
\<close>

text \<open>
  Modelled from the spec: \<open>tx.insert(generationBatches).values(newBatch).returning()\<close>,
  a multi-row insert of the store, which is not among the sources.
\<close>

definition tx_insert_generationBatches ::
  "env \<Rightarrow> user_id \<Rightarrow> CreateImageServicePayload \<Rightarrow> params \<Rightarrow> database
    \<Rightarrow> thrown + (GenerationBatchRow \<times> database)" where
  "tx_insert_generationBatches E uid inp config db =
     (case dbError E InsertGenerationBatch of
        Some e \<Rightarrow> Inl e
      | None \<Rightarrow>
          let batch = \<lparr>b_id = nextId db, b_userId = uid,
                b_generationTopicId = generationTopicId inp,
                b_provider = provider inp, b_model = model inp,
                b_prompt = prompt (params inp),
                b_width = width (params inp), b_height = height (params inp),
                b_config = config\<rparr>
          in Inr (batch, db\<lparr>generationBatches := generationBatches db @ [batch],
                            nextId := Suc (nextId db)\<rparr>))"

text \<open>
  Modelled from the spec: the row the store makes of a new generation and the
  identifier it gives it; the store is not among the sources.
\<close>

definition generationRow :: "id \<times> NewGeneration \<Rightarrow> GenerationRow" where
  "generationRow kn =
     \<lparr>g_id = fst kn, g_userId = n_userId (snd kn),
      g_generationBatchId = n_generationBatchId (snd kn),
      g_seed = n_seed (snd kn), g_asyncTaskId = None\<rparr>"

text \<open>
  Modelled from the spec:
  \<open>tx.insert(generations).values(newGenerations).returning()\<close>; the store is not among
  the sources. The rows are returned in the order of the values.
\<close>

definition tx_insert_generations ::
  "env \<Rightarrow> NewGeneration list \<Rightarrow> database \<Rightarrow> thrown + (GenerationRow list \<times> database)" where
  "tx_insert_generations E news db =
     (case dbError E InsertGenerations of
        Some e \<Rightarrow> Inl e
      | None \<Rightarrow>
          let rows = map generationRow (enumerate (nextId db) news)
          in Inr (rows, db\<lparr>generations := generations db @ rows,
                           nextId := nextId db + length news\<rparr>))"

text \<open>
  Modelled from the spec: \<open>tx.insert(asyncTasks).values({...}).returning()\<close> with the
  values of the handler (the user, the status Pending, the type image generation);
  the store is not among the sources.
\<close>

definition tx_insert_asyncTasks ::
  "env \<Rightarrow> nat \<Rightarrow> user_id \<Rightarrow> database \<Rightarrow> thrown + (AsyncTaskRow \<times> database)" where
  "tx_insert_asyncTasks E i uid db =
     (case dbError E (InsertAsyncTask i) of
        Some e \<Rightarrow> Inl e
      | None \<Rightarrow>
          let task = \<lparr>t_id = nextId db, t_userId = uid, t_status = Pending,
                t_type = ImageGeneration, t_error = None\<rparr>
          in Inr (task, db\<lparr>asyncTasks := asyncTasks db @ [task],
                           nextId := Suc (nextId db)\<rparr>))"

text \<open>
  Modelled from the spec: what the update of the handler does to one row of
  \<open>generations\<close>: \<open>set({ asyncTaskId })\<close> where the identifier and the user are the
  given ones; the store is not among the sources.
\<close>

definition setAsyncTaskId :: "id \<Rightarrow> user_id \<Rightarrow> id \<Rightarrow> GenerationRow \<Rightarrow> GenerationRow" where
  "setAsyncTaskId gid uid tid g =
     (if g_id g = gid \<and> g_userId g = uid then g\<lparr>g_asyncTaskId := Some tid\<rparr> else g)"

text \<open>
  Modelled from the spec: \<open>tx.update(generations).set(...).where(...)\<close>, a single-row
  update of the store, which is not among the sources.
\<close>

definition tx_update_generations ::
  "env \<Rightarrow> nat \<Rightarrow> id \<Rightarrow> user_id \<Rightarrow> id \<Rightarrow> database \<Rightarrow> thrown + database" where
  "tx_update_generations E i gid uid tid db =
     (case dbError E (UpdateGeneration i) of
        Some e \<Rightarrow> Inl e
      | None \<Rightarrow> Inr (db\<lparr>generations := map (setAsyncTaskId gid uid tid) (generations db)\<rparr>))"

text \<open>
  Modelled from the spec: \<open>serverDB.transaction\<close>, which is not among the sources. If
  any statement fails the transaction rolls back and no partial rows are visible.
\<close>

definition transaction ::
  "env \<Rightarrow> (database \<Rightarrow> thrown + ('a \<times> database)) \<Rightarrow> database \<Rightarrow> (thrown + 'a) \<times> database" where
  "transaction E body db =
     (case body db of
        Inl e \<Rightarrow> (Inl e, db)
      | Inr (r, db') \<Rightarrow>
          (case dbError E Commit of
             Some e \<Rightarrow> (Inl e, db)
           | None \<Rightarrow> (Inr r, db')))"

text \<open>
  Modelled from the spec: what \<open>AsyncTaskModel.update\<close>, which is not among the
  sources, does to one row of \<open>asyncTasks\<close>. The update is keyed by the task and its
  owning user and writes the status and the error it is given.
\<close>

definition setStatus ::
  "id \<Rightarrow> user_id \<Rightarrow> AsyncTaskStatus \<Rightarrow> AsyncTaskError \<Rightarrow> AsyncTaskRow \<Rightarrow> AsyncTaskRow" where
  "setStatus tid uid st err t =
     (if t_id t = tid \<and> t_userId t = uid then t\<lparr>t_status := st, t_error := Some err\<rparr> else t)"

text \<open>
  Modelled from the spec: \<open>AsyncTaskModel.update\<close> of \<open>@/database/models/asyncTask\<close>,
  which is not among the sources: the status write \<open>update task\<close> with the input
  \<open>{taskId, status, error}\<close>. It changes nothing when no such task exists.
\<close>

definition asyncTaskModel_update ::
  "env \<Rightarrow> user_id \<Rightarrow> id \<Rightarrow> AsyncTaskStatus \<Rightarrow> AsyncTaskError \<Rightarrow> database \<Rightarrow> thrown + database" where
  "asyncTaskModel_update E uid tid st err db =
     (case dbError E (UpdateAsyncTask tid) of
        Some e \<Rightarrow> Inl e
      | None \<Rightarrow> Inr (db\<lparr>asyncTasks := map (setStatus tid uid st err) (asyncTasks db)\<rparr>))"

subsection \<open>The handler\<close>

text \<open>\<open>Array.prototype.map\<close> with a callback that can throw: the first throw ends it.\<close>

fun mapThrowing :: "('a \<Rightarrow> thrown + 'b) \<Rightarrow> 'a list \<Rightarrow> thrown + 'b list" where
  "mapThrowing f [] = Inr []"
| "mapThrowing f (x # xs) =
     (case f x of
        Inl e \<Rightarrow> Inl e
      | Inr y \<Rightarrow> (case mapThrowing f xs of Inl e \<Rightarrow> Inl e | Inr ys \<Rightarrow> Inr (y # ys)))"

text \<open>
  The configuration stored with the batch: the parameters, with the image URLs
  replaced by their storage keys when there are URLs and every one of them converts;
  the parameters as they are otherwise.
\<close>

definition configForDatabase :: "env \<Rightarrow> params \<Rightarrow> params" where
  "configForDatabase E p =
     (case imageUrls p of
        None \<Rightarrow> p
      | Some urls \<Rightarrow>
          if length urls > 0 then
            (case mapThrowing (getKeyFromFullUrl E) urls of
               Inr imageKeys \<Rightarrow> p\<lparr>imageUrls := Some imageKeys\<rparr>
             | Inl error \<Rightarrow> p)
          else p)"

text \<open>
  \<open>Array.from({ length: imageNum }, ...)\<close> makes an array of \<open>ToLength(imageNum)\<close>
  elements: a negative length counts as zero.
\<close>

definition toLength :: "int \<Rightarrow> nat" where
  "toLength n = nat n"

definition seeds :: "env \<Rightarrow> int \<Rightarrow> params \<Rightarrow> int option list" where
  "seeds E n p =
     (case seed p of
        Some v \<Rightarrow> map Some (generateUniqueSeeds E n)
      | None \<Rightarrow> replicate (toLength n) None)"

text \<open>\<open>seeds[index]\<close>: beyond the end of the array it is undefined, and the column stays null.\<close>

definition seedAt :: "int option list \<Rightarrow> nat \<Rightarrow> int option" where
  "seedAt xs index = (if index < length xs then xs ! index else None)"

definition newGenerations :: "env \<Rightarrow> user_id \<Rightarrow> id \<Rightarrow> int \<Rightarrow> params \<Rightarrow> NewGeneration list" where
  "newGenerations E uid bid n p =
     map (\<lambda>index. \<lparr>n_userId = uid, n_generationBatchId = bid,
                    n_seed = seedAt (seeds E n p) index\<rparr>) [0..<toLength n]"

text \<open>
  \<open>Promise.all\<close> over the callback of \<open>createdGenerations.map\<close> inside the
  transaction. Every callback runs up to its first \<open>await\<close> when \<open>map\<close> calls it, so
  the inserts of the tasks are issued in the order of the list before any update: the
  first statement of every callback comes first, \<open>i\<close> being the position of the
  generation.
\<close>

fun insertAsyncTasks ::
  "env \<Rightarrow> user_id \<Rightarrow> nat \<Rightarrow> GenerationRow list \<Rightarrow> database
    \<Rightarrow> thrown + (id list \<times> database)" where
  "insertAsyncTasks E uid i [] db = Inr ([], db)"
| "insertAsyncTasks E uid i (generation # rest) db =
     (case tx_insert_asyncTasks E i uid db of
        Inl e \<Rightarrow> Inl e
      | Inr (createdAsyncTask, db1) \<Rightarrow>
          (case insertAsyncTasks E uid (Suc i) rest db1 of
             Inl e \<Rightarrow> Inl e
           | Inr (others, db2) \<Rightarrow> Inr (t_id createdAsyncTask # others, db2)))"

text \<open>
  The second statement of every callback, in the order in which the inserts have
  returned: the identifier of the task is written on the generation.
\<close>

fun updateGenerations ::
  "env \<Rightarrow> user_id \<Rightarrow> nat \<Rightarrow> (GenerationRow \<times> id) list \<Rightarrow> database
    \<Rightarrow> thrown + database" where
  "updateGenerations E uid i [] db = Inr db"
| "updateGenerations E uid i (ga # rest) db =
     (case tx_update_generations E i (g_id (fst ga)) uid (snd ga) db of
        Inl e \<Rightarrow> Inl e
      | Inr db1 \<Rightarrow> updateGenerations E uid (Suc i) rest db1)"

text \<open>
  \<open>Promise.all\<close> rejects with the first rejection, which is the first statement
  to fail in the order above, and resolves with the pairs \<open>{ generation, asyncTaskId }\<close>
  in the order of the generations.
\<close>

definition createAsyncTasks ::
  "env \<Rightarrow> user_id \<Rightarrow> GenerationRow list \<Rightarrow> database
    \<Rightarrow> thrown + ((GenerationRow \<times> id) list \<times> database)" where
  "createAsyncTasks E uid createdGenerations db =
     (case insertAsyncTasks E uid 0 createdGenerations db of
        Inl e \<Rightarrow> Inl e
      | Inr (asyncTaskIds, db1) \<Rightarrow>
          (case updateGenerations E uid 0 (zip createdGenerations asyncTaskIds) db1 of
             Inl e \<Rightarrow> Inl e
           | Inr db2 \<Rightarrow> Inr (zip createdGenerations asyncTaskIds, db2)))"

text \<open>The body of the transaction.\<close>

definition createRecords ::
  "env \<Rightarrow> user_id \<Rightarrow> CreateImageServicePayload \<Rightarrow> database
    \<Rightarrow> thrown + ((GenerationBatchRow \<times> (GenerationRow \<times> id) list) \<times> database)" where
  "createRecords E uid inp db =
     (case tx_insert_generationBatches E uid inp (configForDatabase E (params inp)) db of
        Inl e \<Rightarrow> Inl e
      | Inr (batch, db1) \<Rightarrow>
          (case tx_insert_generations E
                  (newGenerations E uid (b_id batch) (imageNum inp) (params inp)) db1 of
             Inl e \<Rightarrow> Inl e
           | Inr (createdGenerations, db2) \<Rightarrow>
               (case createAsyncTasks E uid createdGenerations db2 of
                  Inl e \<Rightarrow> Inl e
                | Inr (generationsWithTasks, db3) \<Rightarrow>
                    Inr ((batch, generationsWithTasks), db3))))"

definition callFor :: "CreateImageServicePayload \<Rightarrow> GenerationRow \<times> id \<Rightarrow> CreateImageCall" where
  "callFor inp ga =
     \<lparr>taskId = snd ga, generationId = g_id (fst ga), c_provider = provider inp,
      c_model = model inp, c_params = params inp\<rparr>"

text \<open>
  The fallback when the dispatch throws: \<open>Promise.allSettled\<close> over one status update
  per task; an update that fails is dropped, the others are still made.
\<close>

definition failedToProcess :: "thrown \<Rightarrow> AsyncTaskError" where
  "failedToProcess e =
     \<lparr>errorType = ServerError,
      errorMessage = (case e of ErrorObj m \<Rightarrow> m | Other m \<Rightarrow> ''Failed to process async tasks'')\<rparr>"

definition settleUpdate :: "thrown + database \<Rightarrow> database \<Rightarrow> database" where
  "settleUpdate r db = (case r of Inl updateError \<Rightarrow> db | Inr db' \<Rightarrow> db')"

definition markAllFailed :: "env \<Rightarrow> user_id \<Rightarrow> thrown \<Rightarrow> id list \<Rightarrow> database \<Rightarrow> database" where
  "markAllFailed E uid e tids db =
     fold (\<lambda>asyncTaskId d.
             settleUpdate (asyncTaskModel_update E uid asyncTaskId Error (failedToProcess e) d) d)
       tids db"

record CreateImageResponse =
  success :: bool
  batch :: GenerationBatchRow
  r_generations :: "GenerationRow list"

text \<open>
  What one request does: the response (or the value thrown to the caller), the remote
  calls it has started, in order, and the database it leaves.
\<close>

record outcome =
  response :: "thrown + CreateImageResponse"
  started :: "CreateImageCall list"
  store :: database

definition createImage :: "env \<Rightarrow> ctx \<Rightarrow> CreateImageServicePayload \<Rightarrow> database \<Rightarrow> outcome" where
  "createImage E c inp db =
     (case transaction E (createRecords E (userId c) inp) db of
        (Inl e, db') \<Rightarrow> \<lparr>response = Inl e, started = [], store = db'\<rparr>
      | (Inr (createdBatch, generationsWithTasks), db') \<Rightarrow>
          let result = \<lparr>success = True, batch = createdBatch,
                         r_generations = map fst generationsWithTasks\<rparr>
          in (case createAsyncCaller E of
                None \<Rightarrow>
                  \<lparr>response = Inr result,
                   started = map (callFor inp) generationsWithTasks,
                   store = db'\<rparr>
              | Some e \<Rightarrow>
                  \<lparr>response = Inr result,
                   started = [],
                   store = markAllFailed E (userId c) e (map snd generationsWithTasks) db'\<rparr>))"

subsection \<open>The continuations of the remote calls\<close>

text \<open>
  A remote call resolves or rejects after the handler has returned. On a rejection
  the \<open>catch\<close> continuation writes the status Error on the task of the call; when
  that update fails the database stays as it is.
\<close>

definition executionError :: "thrown \<Rightarrow> AsyncTaskError" where
  "executionError e =
     \<lparr>errorType = ServerError, errorMessage = orElse (message e) ''Unknown error''\<rparr>"

fun onSettled :: "env \<Rightarrow> user_id \<Rightarrow> id \<Rightarrow> settlement \<Rightarrow> database \<Rightarrow> database" where
  "onSettled E uid asyncTaskId Resolved db = db"
| "onSettled E uid asyncTaskId (Rejected e) db =
     settleUpdate (asyncTaskModel_update E uid asyncTaskId Error (executionError e) db) db"

text \<open>
  The background work of one request: the calls settle in any order, each at most
  once. An event names the task of the call and how the call settled.
\<close>

definition background :: "env \<Rightarrow> user_id \<Rightarrow> (id \<times> settlement) list \<Rightarrow> database \<Rightarrow> database" where
  "background E uid events db = fold (\<lambda>ev d. onSettled E uid (fst ev) (snd ev) d) events db"

definition schedule :: "CreateImageCall list \<Rightarrow> (id \<times> settlement) list \<Rightarrow> bool" where
  "schedule calls events \<longleftrightarrow>
     distinct (map fst events) \<and> list_all (\<lambda>ev. fst ev \<in> set (map taskId calls)) events"

text \<open>
  The request as a whole. The handler holds the remote caller, so the futures of the
  calls it starts are within its reach; it does not await them. The settlements of the
  started calls, as the remote side decides them, are handled after the handler has
  returned, here in the order in which the calls were started. What a client can see
  is the response of the handler and the database afterwards.
\<close>

definition settlements :: "env \<Rightarrow> CreateImageCall list \<Rightarrow> (id \<times> settlement) list" where
  "settlements E calls =
     concat (map (\<lambda>call. case remoteCreateImage E call of
                             None \<Rightarrow> []
                           | Some s \<Rightarrow> [(taskId call, s)]) calls)"

definition request ::
  "env \<Rightarrow> ctx \<Rightarrow> CreateImageServicePayload \<Rightarrow> database
    \<Rightarrow> (thrown + CreateImageResponse) \<times> database" where
  "request E c inp db =
     (let out = createImage E c inp db
      in (response out,
          background E (userId c) (settlements E (started out)) (store out)))"

section \<open>Vocabulary of the statements\<close>

text \<open>
  All definitions of the development come first. The ones of this section are not
  part of the handler: they name what the theorems speak about.
\<close>

text \<open>
  Identifiers are fresh: every row of the database has an identifier below the next
  one the database hands out (the primary keys of the store).
\<close>

definition wf_database :: "database \<Rightarrow> bool" where
  "wf_database db \<longleftrightarrow>
     list_all (\<lambda>g. g_id g < nextId db) (generations db) \<and>
     list_all (\<lambda>t. t_id t < nextId db) (asyncTasks db)"

text \<open>
  The statements of the transaction for \<open>n\<close> generations, and the transaction
  going through: none of its statements fails.
\<close>

definition bodyOps :: "nat \<Rightarrow> db_op list" where
  "bodyOps n =
     [InsertGenerationBatch, InsertGenerations] @
     map InsertAsyncTask [0..<n] @ map UpdateGeneration [0..<n]"

definition txOps :: "nat \<Rightarrow> db_op list" where
  "txOps n = bodyOps n @ [Commit]"

definition commits :: "env \<Rightarrow> CreateImageServicePayload \<Rightarrow> bool" where
  "commits E inp \<longleftrightarrow>
     list_all (\<lambda>op. dbError E op = None) (txOps (toLength (imageNum inp)))"

text \<open>
  The rows a transaction that goes through writes, and the database it leaves:
  the batch gets the next identifier, the generations the ones after it, the tasks
  the ones after those.
\<close>

definition pendingTask :: "user_id \<Rightarrow> id \<Rightarrow> AsyncTaskRow" where
  "pendingTask uid tid =
     \<lparr>t_id = tid, t_userId = uid, t_status = Pending, t_type = ImageGeneration, t_error = None\<rparr>"

definition newBatch :: "env \<Rightarrow> user_id \<Rightarrow> CreateImageServicePayload \<Rightarrow> database \<Rightarrow> GenerationBatchRow" where
  "newBatch E uid inp db =
     \<lparr>b_id = nextId db, b_userId = uid, b_generationTopicId = generationTopicId inp,
      b_provider = provider inp, b_model = model inp, b_prompt = prompt (params inp),
      b_width = width (params inp), b_height = height (params inp),
      b_config = configForDatabase E (params inp)\<rparr>"

definition firstTaskId :: "CreateImageServicePayload \<Rightarrow> database \<Rightarrow> id" where
  "firstTaskId inp db = Suc (nextId db) + toLength (imageNum inp)"

definition insertedGeneration ::
  "env \<Rightarrow> user_id \<Rightarrow> CreateImageServicePayload \<Rightarrow> database \<Rightarrow> nat \<Rightarrow> GenerationRow" where
  "insertedGeneration E uid inp db k =
     \<lparr>g_id = Suc (nextId db) + k, g_userId = uid, g_generationBatchId = nextId db,
      g_seed = seedAt (seeds E (imageNum inp) (params inp)) k, g_asyncTaskId = None\<rparr>"

definition linkedGeneration ::
  "env \<Rightarrow> user_id \<Rightarrow> CreateImageServicePayload \<Rightarrow> database \<Rightarrow> nat \<Rightarrow> GenerationRow" where
  "linkedGeneration E uid inp db k =
     (insertedGeneration E uid inp db k)\<lparr>g_asyncTaskId := Some (firstTaskId inp db + k)\<rparr>"

definition taskPairs ::
  "env \<Rightarrow> user_id \<Rightarrow> CreateImageServicePayload \<Rightarrow> database \<Rightarrow> (GenerationRow \<times> id) list" where
  "taskPairs E uid inp db =
     map (\<lambda>k. (insertedGeneration E uid inp db k, firstTaskId inp db + k))
       [0..<toLength (imageNum inp)]"

definition written :: "env \<Rightarrow> user_id \<Rightarrow> CreateImageServicePayload \<Rightarrow> database \<Rightarrow> database" where
  "written E uid inp db =
     db\<lparr>generationBatches := generationBatches db @ [newBatch E uid inp db],
        generations := generations db @
           map (linkedGeneration E uid inp db) [0..<toLength (imageNum inp)],
        asyncTasks := asyncTasks db @
           map (\<lambda>k. pendingTask uid (firstTaskId inp db + k)) [0..<toLength (imageNum inp)],
        nextId := Suc (nextId db) + 2 * toLength (imageNum inp)\<rparr>"

text \<open>What the updates of the transaction, taken together, do to one generation row.\<close>

definition linkRow :: "user_id \<Rightarrow> (GenerationRow \<times> id) list \<Rightarrow> GenerationRow \<Rightarrow> GenerationRow" where
  "linkRow uid pairs g = fold (\<lambda>ga. setAsyncTaskId (g_id (fst ga)) uid (snd ga)) pairs g"

text \<open>A concrete request, used to instantiate the theorems.\<close>

definition storageKey :: "string \<Rightarrow> thrown + string" where
  "storageKey url =
     (if take 12 url = ''https://cdn/'' then Inr (drop 12 url)
      else Inl (ErrorObj ''Invalid URL''))"

definition exampleEnv :: env where
  "exampleEnv =
     \<lparr>getKeyFromFullUrl = storageKey,
      generateUniqueSeeds = (\<lambda>n. map (\<lambda>k. 7 + int k) [0..<nat n]),
      createAsyncCaller = None,
      remoteCreateImage = (\<lambda>call. Some Resolved),
      dbError = (\<lambda>op. None)\<rparr>"

definition exampleParams :: params where
  "exampleParams =
     \<lparr>prompt = ''a cat'', imageUrls = Some [''https://cdn/x.png''],
      width = Some 512, height = Some 512, seed = Some None,
      steps = None, cfg = None, passthrough = []\<rparr>"

definition exampleInput :: CreateImageServicePayload where
  "exampleInput =
     \<lparr>generationTopicId = ''topic'', provider = ''fal'', model = ''flux'',
      imageNum = 2, params = exampleParams\<rparr>"

definition exampleCtx :: ctx where
  "exampleCtx = \<lparr>userId = ''user''\<rparr>"

definition emptyDatabase :: database where
  "emptyDatabase = \<lparr>generationBatches = [], generations = [], asyncTasks = [], nextId = 0\<rparr>"

definition failingEnv :: env where
  "failingEnv = exampleEnv\<lparr>dbError :=
      (\<lambda>op. if op = InsertAsyncTask 1 then Some (ErrorObj ''insert failed'') else None)\<rparr>"

definition localInput :: CreateImageServicePayload where
  "localInput = exampleInput\<lparr>params :=
      exampleParams\<lparr>imageUrls := Some [''https://cdn/x.png'', ''blob:local'']\<rparr>\<rparr>"

definition callerDownEnv :: env where
  "callerDownEnv = exampleEnv\<lparr>createAsyncCaller := Some (ErrorObj ''no caller'')\<rparr>"

text \<open>
  Two environments that agree on everything the handler uses up to the commit; they
  may differ in \<open>createAsyncCaller\<close>, in how the remote calls settle and in the
  failures of the status updates.
\<close>

definition sameUntilCommit :: "env \<Rightarrow> env \<Rightarrow> nat \<Rightarrow> bool" where
  "sameUntilCommit E E' n \<longleftrightarrow>
     getKeyFromFullUrl E' = getKeyFromFullUrl E \<and>
     generateUniqueSeeds E' = generateUniqueSeeds E \<and>
     list_all (\<lambda>op. dbError E' op = dbError E op) (txOps n)"

text \<open>The request with the key \<open>seed\<close> present and the value \<open>v\<close> (\<open>None\<close>: null).\<close>

definition withSeed :: "int option \<Rightarrow> CreateImageServicePayload \<Rightarrow> CreateImageServicePayload" where
  "withSeed v inp = inp\<lparr>params := (params inp)\<lparr>seed := Some v\<rparr>\<rparr>"

definition seedlessInput :: CreateImageServicePayload where
  "seedlessInput = exampleInput\<lparr>params := exampleParams\<lparr>seed := None\<rparr>\<rparr>"

definition rejectingEnv :: env where
  "rejectingEnv =
     exampleEnv\<lparr>remoteCreateImage :=
       (\<lambda>call. if taskId call = 3 then Some (Rejected (ErrorObj ''timeout'')) else None)\<rparr>"

definition unluckyEnv :: env where
  "unluckyEnv =
     exampleEnv\<lparr>createAsyncCaller := Some (Other None),
       dbError := (\<lambda>op. if op = UpdateAsyncTask 4 then Some (ErrorObj ''write failed'')
                        else None)\<rparr>"

text \<open>
  What the fallback of the handler does to one task row, given the tasks it goes
  through.
\<close>

definition markRow :: "env \<Rightarrow> user_id \<Rightarrow> thrown \<Rightarrow> id list \<Rightarrow> AsyncTaskRow \<Rightarrow> AsyncTaskRow" where
  "markRow E uid e tids t =
     (if t_id t \<in> set tids \<and> t_userId t = uid \<and> dbError E (UpdateAsyncTask (t_id t)) = None
      then t\<lparr>t_status := Error, t_error := Some (failedToProcess e)\<rparr>
      else t)"

text \<open>
  How the row of a task may differ between two moments: not at all, or it was
  Pending and has become Error (with an error attached), all else equal.
\<close>

definition taskMove :: "AsyncTaskRow \<Rightarrow> AsyncTaskRow \<Rightarrow> bool" where
  "taskMove t t' \<longleftrightarrow>
     t' = t \<or> (t_status t = Pending \<and> t' = t\<lparr>t_status := Error, t_error := t_error t'\<rparr>)"

text \<open>What the continuation of one settled call, and of a list of them, does to one task row.\<close>

definition settleRow :: "env \<Rightarrow> user_id \<Rightarrow> id \<times> settlement \<Rightarrow> AsyncTaskRow \<Rightarrow> AsyncTaskRow" where
  "settleRow E uid ev =
     (\<lambda>t. case snd ev of
        Resolved \<Rightarrow> t
      | Rejected e \<Rightarrow>
          if dbError E (UpdateAsyncTask (fst ev)) = None
          then setStatus (fst ev) uid Error (executionError e) t
          else t)"

definition backgroundRow ::
  "env \<Rightarrow> user_id \<Rightarrow> (id \<times> settlement) list \<Rightarrow> AsyncTaskRow \<Rightarrow> AsyncTaskRow" where
  "backgroundRow E uid events t = fold (settleRow E uid) events t"

text \<open>
  Modelled from the spec: the success path of the remote side, which is not among the
  sources. On success the handler does nothing; the remote side is responsible for
  marking the task Success. It writes the status Success on the task of the call.
\<close>

definition remoteSuccess :: "id \<Rightarrow> database \<Rightarrow> database" where
  "remoteSuccess tid db =
     db\<lparr>asyncTasks := map (\<lambda>t. if t_id t = tid then t\<lparr>t_status := Success\<rparr> else t)
                          (asyncTasks db)\<rparr>"

text \<open>
  How the row of a task may differ before and after status writes of the handler and
  its continuations, whatever the status of the task was: not at all, or its status
  has been set to Error (with an error attached), all else equal.
\<close>

definition statusWrite :: "AsyncTaskRow \<Rightarrow> AsyncTaskRow \<Rightarrow> bool" where
  "statusWrite t t' \<longleftrightarrow> t' = t \<or> t' = t\<lparr>t_status := Error, t_error := t_error t'\<rparr>"

section \<open>The transaction\<close>

subsection \<open>The tasks of the generations\<close>

lemma insertAsyncTasks_Inr:
  "insertAsyncTasks E uid i gs db = Inr (tids, db1) \<Longrightarrow>
     length tids = length gs \<and> (\<forall>k<length gs. dbError E (InsertAsyncTask (i + k)) = None)"
proof (induction gs arbitrary: i db tids db1)
  case Nil
  then show ?case by simp
next
  case (Cons g gs)
  from Cons.prems obtain t d others where
    s1: "tx_insert_asyncTasks E i uid db = Inr (t, d)" and
    s2: "insertAsyncTasks E uid (Suc i) gs d = Inr (others, db1)" and
    ti: "tids = t_id t # others"
    by (auto split: sum.splits prod.splits)
  have h0: "dbError E (InsertAsyncTask i) = None"
    using s1 by (auto simp: tx_insert_asyncTasks_def split: option.splits)
  from Cons.IH [OF s2] have len: "length others = length gs"
    and rest: "\<forall>k<length gs. dbError E (InsertAsyncTask (Suc i + k)) = None"
    by simp_all
  have "dbError E (InsertAsyncTask (i + k)) = None" if "k < length (g # gs)" for k
  proof (cases k)
    case 0
    then show ?thesis using h0 by simp
  next
    case (Suc k')
    then show ?thesis using rest that by simp
  qed
  then show ?case using len ti by simp
qed

lemma insertAsyncTasks_Inl:
  "insertAsyncTasks E uid i gs db = Inl e \<Longrightarrow>
     \<exists>k<length gs. dbError E (InsertAsyncTask (i + k)) = Some e"
proof (induction gs arbitrary: i db)
  case Nil
  then show ?case by simp
next
  case (Cons g gs)
  show ?case
  proof (cases "dbError E (InsertAsyncTask i)")
    case (Some a)
    then have "a = e" using Cons.prems by (simp add: tx_insert_asyncTasks_def)
    then have "dbError E (InsertAsyncTask (i + 0)) = Some e" using Some by simp
    then show ?thesis by (intro exI [of _ 0]) simp
  next
    case None
    then obtain d where "insertAsyncTasks E uid (Suc i) gs d = Inl e"
      using Cons.prems
      by (auto simp: tx_insert_asyncTasks_def Let_def split: sum.splits prod.splits)
    from Cons.IH [OF this] obtain k where "k < length gs"
      "dbError E (InsertAsyncTask (Suc i + k)) = Some e" by blast
    then show ?thesis by (intro exI [of _ "Suc k"]) simp
  qed
qed

lemma insertAsyncTasks_ok:
  "(\<And>k. k < length gs \<Longrightarrow> dbError E (InsertAsyncTask (i + k)) = None) \<Longrightarrow>
   insertAsyncTasks E uid i gs db =
     Inr (map (\<lambda>k. k + nextId db) [0..<length gs],
          db\<lparr>asyncTasks := asyncTasks db @
               map (\<lambda>k. pendingTask uid (k + nextId db)) [0..<length gs],
             nextId := nextId db + length gs\<rparr>)"
proof (induction gs arbitrary: i db)
  case Nil
  then show ?case by simp
next
  case (Cons g gs)
  have h0: "dbError E (InsertAsyncTask i) = None"
    using Cons.prems [of 0] by simp
  have hk: "\<And>k. k < length gs \<Longrightarrow> dbError E (InsertAsyncTask (Suc i + k)) = None"
    using Cons.prems [of "Suc k" for k] by simp
  show ?case
    by (simp add: h0 tx_insert_asyncTasks_def Cons.IH [OF hk]
        pendingTask_def comp_def Let_def map_upt_Suc del: upt_Suc)
qed

lemma updateGenerations_Inr:
  "updateGenerations E uid i ps db = Inr d \<Longrightarrow> k < length ps \<Longrightarrow>
     dbError E (UpdateGeneration (i + k)) = None"
proof (induction ps arbitrary: i db k)
  case Nil
  then show ?case by simp
next
  case (Cons p ps)
  from Cons.prems(1) obtain d1 where
    s1: "tx_update_generations E i (g_id (fst p)) uid (snd p) db = Inr d1" and
    s2: "updateGenerations E uid (Suc i) ps d1 = Inr d"
    by (auto split: sum.splits)
  have h0: "dbError E (UpdateGeneration i) = None"
    using s1 by (auto simp: tx_update_generations_def split: option.splits)
  show ?case
  proof (cases k)
    case 0
    then show ?thesis using h0 by simp
  next
    case (Suc k')
    then have "k' < length ps" using Cons.prems(2) by simp
    from Cons.IH [OF s2 this] show ?thesis using Suc by simp
  qed
qed

lemma updateGenerations_Inl:
  "updateGenerations E uid i ps db = Inl e \<Longrightarrow>
     \<exists>k<length ps. dbError E (UpdateGeneration (i + k)) = Some e"
proof (induction ps arbitrary: i db)
  case Nil
  then show ?case by simp
next
  case (Cons p ps)
  show ?case
  proof (cases "dbError E (UpdateGeneration i)")
    case (Some a)
    then have "a = e" using Cons.prems by (simp add: tx_update_generations_def)
    then have "dbError E (UpdateGeneration (i + 0)) = Some e" using Some by simp
    then show ?thesis by (intro exI [of _ 0]) simp
  next
    case None
    then obtain d where "updateGenerations E uid (Suc i) ps d = Inl e"
      using Cons.prems by (auto simp: tx_update_generations_def split: sum.splits)
    from Cons.IH [OF this] obtain k where "k < length ps"
      "dbError E (UpdateGeneration (Suc i + k)) = Some e" by blast
    then show ?thesis by (intro exI [of _ "Suc k"]) simp
  qed
qed

lemma updateGenerations_ok:
  "(\<And>k. k < length ps \<Longrightarrow> dbError E (UpdateGeneration (i + k)) = None) \<Longrightarrow>
   updateGenerations E uid i ps db =
     Inr (db\<lparr>generations := map (linkRow uid ps) (generations db)\<rparr>)"
proof (induction ps arbitrary: i db)
  case Nil
  then show ?case by (simp add: linkRow_def)
next
  case (Cons p ps)
  have h0: "dbError E (UpdateGeneration i) = None"
    using Cons.prems [of 0] by simp
  have hk: "\<And>k. k < length ps \<Longrightarrow> dbError E (UpdateGeneration (Suc i + k)) = None"
    using Cons.prems [of "Suc k" for k] by simp
  show ?case
    by (simp add: h0 tx_update_generations_def Cons.IH [OF hk] linkRow_def comp_def)
qed

lemma createAsyncTasks_Inr:
  assumes "createAsyncTasks E uid gs db = Inr r" and "k < length gs"
  shows "dbError E (InsertAsyncTask k) = None \<and> dbError E (UpdateGeneration k) = None"
proof -
  from assms(1) obtain tids db1 db2 where
    s1: "insertAsyncTasks E uid 0 gs db = Inr (tids, db1)" and
    s2: "updateGenerations E uid 0 (zip gs tids) db1 = Inr db2"
    by (auto simp: createAsyncTasks_def split: sum.splits prod.splits)
  from insertAsyncTasks_Inr [OF s1] have len: "length tids = length gs"
    and ins: "dbError E (InsertAsyncTask k) = None"
    using assms(2) by auto
  from updateGenerations_Inr [OF s2, of k] len assms(2)
  have "dbError E (UpdateGeneration k) = None" by simp
  with ins show ?thesis by simp
qed

lemma createAsyncTasks_ok:
  assumes "\<And>k. k < length gs \<Longrightarrow>
      dbError E (InsertAsyncTask k) = None \<and> dbError E (UpdateGeneration k) = None"
  shows "createAsyncTasks E uid gs db =
     Inr (zip gs (map (\<lambda>k. k + nextId db) [0..<length gs]),
          db\<lparr>generations :=
               map (linkRow uid (zip gs (map (\<lambda>k. k + nextId db) [0..<length gs])))
                 (generations db),
             asyncTasks := asyncTasks db @
               map (\<lambda>k. pendingTask uid (k + nextId db)) [0..<length gs],
             nextId := nextId db + length gs\<rparr>)"
proof -
  have i: "\<And>k. k < length gs \<Longrightarrow> dbError E (InsertAsyncTask (0 + k)) = None"
    using assms by simp
  have u: "\<And>k. k < length (zip gs (map (\<lambda>k. k + nextId db) [0..<length gs])) \<Longrightarrow>
      dbError E (UpdateGeneration (0 + k)) = None"
    using assms by simp
  let ?pairs = "zip gs (map (\<lambda>k. k + nextId db) [0..<length gs])"
  define db1 where
    "db1 = db\<lparr>asyncTasks := asyncTasks db @
               map (\<lambda>k. pendingTask uid (k + nextId db)) [0..<length gs],
             nextId := nextId db + length gs\<rparr>"
  have s1: "insertAsyncTasks E uid 0 gs db = Inr (map (\<lambda>k. k + nextId db) [0..<length gs], db1)"
    unfolding db1_def by (rule insertAsyncTasks_ok [OF i])
  have s2: "updateGenerations E uid 0 ?pairs db1 =
      Inr (db1\<lparr>generations := map (linkRow uid ?pairs) (generations db1)\<rparr>)"
    by (rule updateGenerations_ok [OF u])
  show ?thesis
    unfolding createAsyncTasks_def by (simp add: s1 s2) (simp add: db1_def)
qed

lemma setAsyncTaskId_id [simp]: "g_id (setAsyncTaskId gid uid tid g) = g_id g"
  by (simp add: setAsyncTaskId_def)

lemma linkRow_id [simp]: "g_id (linkRow uid ps g) = g_id g"
  unfolding linkRow_def by (induction ps arbitrary: g) simp_all

lemma linkRow_Nil [simp]: "linkRow uid [] g = g"
  by (simp add: linkRow_def)

lemma linkRow_Cons [simp]:
  "linkRow uid (p # ps) g = linkRow uid ps (setAsyncTaskId (g_id (fst p)) uid (snd p) g)"
  by (simp add: linkRow_def)

lemma linkRow_other:
  "g_id g \<notin> set (map (g_id \<circ> fst) ps) \<Longrightarrow> linkRow uid ps g = g"
  by (induction ps arbitrary: g) (auto simp: setAsyncTaskId_def)

lemma linkRow_own:
  "distinct (map (g_id \<circ> fst) ps) \<Longrightarrow> (g, t) \<in> set ps \<Longrightarrow> g_userId g = uid \<Longrightarrow>
     linkRow uid ps g = g\<lparr>g_asyncTaskId := Some t\<rparr>"
proof (induction ps)
  case Nil
  then show ?case by simp
next
  case (Cons p ps)
  show ?case
  proof (cases "p = (g, t)")
    case True
    have "g_id g \<notin> set (map (g_id \<circ> fst) ps)"
      using Cons.prems(1) True by simp
    then have "linkRow uid ps (g\<lparr>g_asyncTaskId := Some t\<rparr>) = g\<lparr>g_asyncTaskId := Some t\<rparr>"
      by (intro linkRow_other) simp
    then show ?thesis using True Cons.prems(3) by (simp add: setAsyncTaskId_def)
  next
    case False
    then have mem: "(g, t) \<in> set ps" using Cons.prems(2) by simp
    then have "g_id g \<in> set (map (g_id \<circ> fst) ps)" by force
    moreover have "g_id (fst p) \<notin> set (map (g_id \<circ> fst) ps)"
      using Cons.prems(1) by simp
    ultimately have "g_id (fst p) \<noteq> g_id g" by metis
    then have "setAsyncTaskId (g_id (fst p)) uid (snd p) g = g"
      by (simp add: setAsyncTaskId_def)
    moreover have "linkRow uid ps g = g\<lparr>g_asyncTaskId := Some t\<rparr>"
      using Cons.IH mem Cons.prems(1,3) by simp
    ultimately show ?thesis by simp
  qed
qed

subsection \<open>The body of the transaction when no statement fails\<close>

lemma newBatch_id: "b_id (newBatch E uid inp db) = nextId db"
  by (simp add: newBatch_def)

lemma length_newGenerations: "length (newGenerations E uid bid n p) = toLength n"
  by (simp add: newGenerations_def)

lemma inserted_rows:
  "map generationRow (enumerate (Suc (nextId db))
      (newGenerations E uid (nextId db) (imageNum inp) (params inp))) =
   map (insertedGeneration E uid inp db) [0..<toLength (imageNum inp)]"
  by (rule nth_equalityI)
     (simp_all add: newGenerations_def generationRow_def insertedGeneration_def nth_enumerate_eq)

lemma zip_pairs:
  "zip (map (insertedGeneration E uid inp db) [0..<toLength (imageNum inp)])
       (map (\<lambda>k. k + firstTaskId inp db) [0..<toLength (imageNum inp)]) =
   taskPairs E uid inp db"
  by (rule nth_equalityI) (simp_all add: taskPairs_def)

lemma taskPairs_ids:
  "map (g_id \<circ> fst) (taskPairs E uid inp db) =
     [Suc (nextId db)..<Suc (nextId db) + toLength (imageNum inp)]"
  by (rule nth_equalityI) (simp_all add: taskPairs_def insertedGeneration_def del: upt_Suc)

lemma link_old:
  assumes "list_all (\<lambda>g. g_id g < nextId db) old"
  shows "map (linkRow uid (taskPairs E uid inp db)) old = old"
proof -
  have "linkRow uid (taskPairs E uid inp db) g = g" if "g \<in> set old" for g
  proof (rule linkRow_other)
    from that assms have "g_id g < nextId db" by (simp add: list_all_iff)
    then show "g_id g \<notin> set (map (g_id \<circ> fst) (taskPairs E uid inp db))"
      unfolding taskPairs_ids by simp
  qed
  then show ?thesis by (simp add: map_idI)
qed

lemma link_new:
  "map (linkRow uid (taskPairs E uid inp db))
       (map (insertedGeneration E uid inp db) [0..<toLength (imageNum inp)]) =
   map (linkedGeneration E uid inp db) [0..<toLength (imageNum inp)]"
proof (rule nth_equalityI)
  show "length (map (linkRow uid (taskPairs E uid inp db))
       (map (insertedGeneration E uid inp db) [0..<toLength (imageNum inp)])) =
     length (map (linkedGeneration E uid inp db) [0..<toLength (imageNum inp)])" by simp
next
  fix k
  assume "k < length (map (linkRow uid (taskPairs E uid inp db))
       (map (insertedGeneration E uid inp db) [0..<toLength (imageNum inp)]))"
  then have k: "k < toLength (imageNum inp)" by simp
  have d: "distinct (map (g_id \<circ> fst) (taskPairs E uid inp db))"
    unfolding taskPairs_ids by simp
  have m: "(insertedGeneration E uid inp db k, firstTaskId inp db + k) \<in> set (taskPairs E uid inp db)"
    using k by (auto simp: taskPairs_def)
  have u: "g_userId (insertedGeneration E uid inp db k) = uid"
    by (simp add: insertedGeneration_def)
  show "map (linkRow uid (taskPairs E uid inp db))
       (map (insertedGeneration E uid inp db) [0..<toLength (imageNum inp)]) ! k =
     map (linkedGeneration E uid inp db) [0..<toLength (imageNum inp)] ! k"
    using k linkRow_own [OF d m u] by (simp add: linkedGeneration_def)
qed

lemma createRecords_ok:
  assumes wf: "wf_database db"
    and ok: "\<forall>op \<in> set (bodyOps (toLength (imageNum inp))). dbError E op = None"
  shows "createRecords E uid inp db =
     Inr ((newBatch E uid inp db, taskPairs E uid inp db), written E uid inp db)"
proof -
  let ?N = "toLength (imageNum inp)"
  define rows where "rows = map (insertedGeneration E uid inp db) [0..<?N]"
  define db1 where
    "db1 = db\<lparr>generationBatches := generationBatches db @ [newBatch E uid inp db],
              nextId := Suc (nextId db)\<rparr>"
  define db2 where
    "db2 = db1\<lparr>generations := generations db @ rows, nextId := Suc (nextId db) + ?N\<rparr>"
  have b: "dbError E InsertGenerationBatch = None" and g: "dbError E InsertGenerations = None"
    using ok by (simp_all add: bodyOps_def)
  have t: "\<And>k. k < length rows \<Longrightarrow>
      dbError E (InsertAsyncTask k) = None \<and> dbError E (UpdateGeneration k) = None"
    using ok by (simp add: bodyOps_def rows_def)
  have s1: "tx_insert_generationBatches E uid inp (configForDatabase E (params inp)) db =
      Inr (newBatch E uid inp db, db1)"
    by (simp add: tx_insert_generationBatches_def b newBatch_def Let_def db1_def)
  have s2: "tx_insert_generations E
      (newGenerations E uid (nextId db) (imageNum inp) (params inp)) db1 = Inr (rows, db2)"
    by (simp add: tx_insert_generations_def g inserted_rows length_newGenerations Let_def
        db1_def db2_def rows_def)
  have old: "list_all (\<lambda>g. g_id g < nextId db) (generations db)"
    using wf by (simp add: wf_database_def)
  have n2: "nextId db2 = firstTaskId inp db" and l: "length rows = ?N"
    and g2: "generations db2 = generations db @ rows"
    by (simp_all add: firstTaskId_def db2_def rows_def)
  have c: "createAsyncTasks E uid rows db2 =
      Inr (zip rows (map (\<lambda>k. k + nextId db2) [0..<length rows]),
           db2\<lparr>generations :=
               map (linkRow uid (zip rows (map (\<lambda>k. k + nextId db2) [0..<length rows])))
                 (generations db2),
             asyncTasks := asyncTasks db2 @
               map (\<lambda>k. pendingTask uid (k + nextId db2)) [0..<length rows],
             nextId := nextId db2 + length rows\<rparr>)"
    by (rule createAsyncTasks_ok [OF t])
  have z: "zip rows (map (\<lambda>k. k + nextId db2) [0..<length rows]) = taskPairs E uid inp db"
    unfolding n2 l unfolding rows_def by (rule zip_pairs)
  have gens: "map (linkRow uid (taskPairs E uid inp db)) (generations db2) =
      generations db @ map (linkedGeneration E uid inp db) [0..<?N]"
    unfolding g2 rows_def map_append link_old [OF old] link_new ..
  have fin: "db2\<lparr>generations := generations db @ map (linkedGeneration E uid inp db) [0..<?N],
      asyncTasks := asyncTasks db2 @
        map (\<lambda>k. pendingTask uid (k + firstTaskId inp db)) [0..<?N],
      nextId := firstTaskId inp db + ?N\<rparr> = written E uid inp db"
    by (simp add: db2_def db1_def written_def firstTaskId_def add.commute)
  have s3: "createAsyncTasks E uid rows db2 =
      Inr (taskPairs E uid inp db, written E uid inp db)"
    unfolding c z gens unfolding n2 l fin ..
  show ?thesis
    unfolding createRecords_def by (simp add: s1 newBatch_id s2 s3)
qed

subsection \<open>Failures inside the transaction\<close>

lemma createAsyncTasks_Inl:
  assumes "createAsyncTasks E uid gs db = Inl e"
  shows "\<exists>k<length gs. dbError E (InsertAsyncTask k) = Some e \<or>
                    dbError E (UpdateGeneration k) = Some e"
proof (cases "insertAsyncTasks E uid 0 gs db")
  case (Inl a)
  then have "a = e" using assms by (simp add: createAsyncTasks_def)
  with insertAsyncTasks_Inl [OF Inl] show ?thesis by auto
next
  case (Inr r)
  obtain tids db1 where r: "r = (tids, db1)" by (cases r)
  from insertAsyncTasks_Inr [OF Inr [unfolded r]] have len: "length tids = length gs" by simp
  from assms Inr r have "updateGenerations E uid 0 (zip gs tids) db1 = Inl e"
    by (simp add: createAsyncTasks_def split: sum.splits)
  from updateGenerations_Inl [OF this] len show ?thesis by auto
qed

lemma bodyOps_set:
  "set (bodyOps n) =
     {InsertGenerationBatch, InsertGenerations} \<union> InsertAsyncTask ` {0..<n} \<union>
     UpdateGeneration ` {0..<n}"
  by (auto simp: bodyOps_def)

lemma createRecords_steps:
  assumes b: "dbError E InsertGenerationBatch = None" and g: "dbError E InsertGenerations = None"
  obtains batch rows db2 where "length rows = toLength (imageNum inp)"
    and "createRecords E uid inp db =
      (case createAsyncTasks E uid rows db2 of
         Inl e \<Rightarrow> Inl e
       | Inr (generationsWithTasks, db3) \<Rightarrow> Inr ((batch, generationsWithTasks), db3))"
proof -
  obtain batch db1 where
    s1: "tx_insert_generationBatches E uid inp (configForDatabase E (params inp)) db =
      Inr (batch, db1)"
    by (simp add: tx_insert_generationBatches_def b Let_def)
  obtain rows db2 where
    s2: "tx_insert_generations E
      (newGenerations E uid (b_id batch) (imageNum inp) (params inp)) db1 = Inr (rows, db2)"
    and len: "length rows = toLength (imageNum inp)"
    by (simp add: tx_insert_generations_def g Let_def length_newGenerations)
  show thesis
    by (rule that [OF len]) (simp add: createRecords_def s1 s2)
qed

lemma createRecords_Inl:
  assumes "createRecords E uid inp db = Inl e"
  shows "\<exists>op \<in> set (bodyOps (toLength (imageNum inp))). dbError E op = Some e"
proof (cases "dbError E InsertGenerationBatch")
  case (Some a)
  then have "a = e" using assms
    by (simp add: createRecords_def tx_insert_generationBatches_def)
  then show ?thesis using Some by (auto simp: bodyOps_set)
next
  case b: None
  show ?thesis
  proof (cases "dbError E InsertGenerations")
    case (Some a)
    then have "a = e" using assms b
      by (simp add: createRecords_def tx_insert_generationBatches_def
          tx_insert_generations_def Let_def)
    then show ?thesis using Some by (auto simp: bodyOps_set)
  next
    case g: None
    from createRecords_steps [OF b g, of inp uid db] obtain batch rows db2 where
      len: "length rows = toLength (imageNum inp)" and
      eq: "createRecords E uid inp db =
        (case createAsyncTasks E uid rows db2 of
           Inl e \<Rightarrow> Inl e
         | Inr (generationsWithTasks, db3) \<Rightarrow> Inr ((batch, generationsWithTasks), db3))"
      by blast
    from assms eq have t: "createAsyncTasks E uid rows db2 = Inl e"
      by (simp split: sum.splits prod.splits)
    from createAsyncTasks_Inl [OF t] len show ?thesis
      by (auto simp: bodyOps_set)
  qed
qed

lemma createRecords_Inr:
  assumes "createRecords E uid inp db = Inr r"
  shows "list_all (\<lambda>op. dbError E op = None) (bodyOps (toLength (imageNum inp)))"
proof -
  from assms have b: "dbError E InsertGenerationBatch = None"
    by (auto simp: createRecords_def tx_insert_generationBatches_def split: option.splits)
  from assms b have g: "dbError E InsertGenerations = None"
    by (auto simp: createRecords_def tx_insert_generationBatches_def
        tx_insert_generations_def Let_def split: option.splits)
  from createRecords_steps [OF b g, of inp uid db] obtain batch rows db2 where
    len: "length rows = toLength (imageNum inp)" and
    eq: "createRecords E uid inp db =
      (case createAsyncTasks E uid rows db2 of
         Inl e \<Rightarrow> Inl e
       | Inr (generationsWithTasks, db3) \<Rightarrow> Inr ((batch, generationsWithTasks), db3))"
    by blast
  from assms eq obtain r' where t: "createAsyncTasks E uid rows db2 = Inr r'"
    by (auto split: sum.splits)
  have "dbError E (InsertAsyncTask k) = None \<and> dbError E (UpdateGeneration k) = None"
    if "k < toLength (imageNum inp)" for k
    using createAsyncTasks_Inr [OF t, of k] that len by simp
  then show ?thesis using b g by (auto simp: list_all_iff bodyOps_set)
qed

lemma transaction_commits:
  assumes "wf_database db" and "commits E inp"
  shows "transaction E (createRecords E uid inp) db =
     (Inr (newBatch E uid inp db, taskPairs E uid inp db), written E uid inp db)"
proof -
  from assms(2) have ok: "\<forall>op \<in> set (bodyOps (toLength (imageNum inp))). dbError E op = None"
    and c: "dbError E Commit = None"
    by (simp_all add: commits_def txOps_def list_all_iff)
  show ?thesis
    by (simp add: transaction_def createRecords_ok [OF assms(1) ok] c)
qed

lemma transaction_Inr:
  assumes "transaction E (createRecords E uid inp) db = (Inr r, db')"
  shows "commits E inp"
proof -
  from assms obtain r' where b: "createRecords E uid inp db = Inr r'"
    and c: "dbError E Commit = None"
    by (auto simp: transaction_def split: sum.splits option.splits prod.splits)
  from createRecords_Inr [OF b] c show ?thesis
    by (simp add: commits_def txOps_def)
qed

lemma transaction_Inl:
  assumes "transaction E (createRecords E uid inp) db = (Inl e, db')"
  shows "db' = db \<and> (\<exists>op \<in> set (txOps (toLength (imageNum inp))). dbError E op = Some e)"
proof (cases "createRecords E uid inp db")
  case (Inl a)
  then have "a = e" "db' = db" using assms by (simp_all add: transaction_def)
  with createRecords_Inl [OF Inl] show ?thesis by (auto simp: txOps_def)
next
  case (Inr a)
  then have "dbError E Commit = Some e \<and> db' = db" using assms
    by (auto simp: transaction_def split: option.splits prod.splits)
  then show ?thesis by (auto simp: txOps_def)
qed

section \<open>The handler after the transaction\<close>

lemma settleUpdate_frame:
  "generationBatches (settleUpdate (asyncTaskModel_update E uid tid st err d) d) = generationBatches d \<and>
   generations (settleUpdate (asyncTaskModel_update E uid tid st err d) d) = generations d \<and>
   nextId (settleUpdate (asyncTaskModel_update E uid tid st err d) d) = nextId d \<and>
   map t_id (asyncTasks (settleUpdate (asyncTaskModel_update E uid tid st err d) d)) =
     map t_id (asyncTasks d)"
  by (simp add: settleUpdate_def asyncTaskModel_update_def setStatus_def comp_def
      split: option.splits)

lemma markAllFailed_frame:
  "generationBatches (markAllFailed E uid e tids db) = generationBatches db \<and>
   generations (markAllFailed E uid e tids db) = generations db \<and>
   nextId (markAllFailed E uid e tids db) = nextId db \<and>
   map t_id (asyncTasks (markAllFailed E uid e tids db)) = map t_id (asyncTasks db)"
  unfolding markAllFailed_def
  by (induction tids arbitrary: db) (simp_all add: settleUpdate_frame)

lemma createImage_success:
  assumes "response (createImage E c inp db) = Inr r"
  obtains b pairs db' where
    "transaction E (createRecords E (userId c) inp) db = (Inr (b, pairs), db')"
proof (cases "transaction E (createRecords E (userId c) inp) db")
  case (Pair res db')
  show ?thesis
  proof (cases res)
    case (Inl e)
    with Pair assms show ?thesis by (simp add: createImage_def)
  next
    case (Inr bp)
    with Pair that show ?thesis by (cases bp) simp
  qed
qed

lemma createImage_commits:
  assumes "response (createImage E c inp db) = Inr r"
  shows "commits E inp"
  using assms createImage_success transaction_Inr by metis

lemma createImage_store_frame:
  assumes "transaction E (createRecords E (userId c) inp) db = (Inr (b, pairs), db')"
  shows "generationBatches (store (createImage E c inp db)) = generationBatches db' \<and>
         generations (store (createImage E c inp db)) = generations db' \<and>
         map t_id (asyncTasks (store (createImage E c inp db))) = map t_id (asyncTasks db')"
  by (simp add: createImage_def assms Let_def markAllFailed_frame split: option.splits)

subsection \<open>The concrete request goes through\<close>

lemma upt_2: "[0..<2] = [0, Suc 0]"
  by (simp add: upt_rec)

lemma exampleEnv_commits: "commits exampleEnv exampleInput"
  by (simp add: commits_def txOps_def bodyOps_def exampleEnv_def list_all_iff)

lemma emptyDatabase_wf: "wf_database emptyDatabase"
  by (simp add: wf_database_def emptyDatabase_def)

lemma example_response:
  "response (createImage exampleEnv exampleCtx exampleInput emptyDatabase) =
     Inr \<lparr>success = True, batch = newBatch exampleEnv ''user'' exampleInput emptyDatabase,
          r_generations = map fst (taskPairs exampleEnv ''user'' exampleInput emptyDatabase)\<rparr>"
  using transaction_commits [OF emptyDatabase_wf exampleEnv_commits, of "''user''"]
  by (simp add: createImage_def exampleCtx_def exampleEnv_def)

subsection \<open>The outcome of a request whose transaction goes through\<close>

lemma taskPairs_fst:
  "map fst (taskPairs E uid inp db) =
     map (insertedGeneration E uid inp db) [0..<toLength (imageNum inp)]"
  by (simp add: taskPairs_def comp_def)

lemma taskPairs_snd:
  "map snd (taskPairs E uid inp db) =
     map (\<lambda>k. firstTaskId inp db + k) [0..<toLength (imageNum inp)]"
  by (simp add: taskPairs_def comp_def)

lemma createImage_committed:
  assumes "wf_database db" and "commits E inp"
  shows "createImage E c inp db =
     \<lparr>response = Inr \<lparr>success = True, batch = newBatch E (userId c) inp db,
          r_generations =
            map (insertedGeneration E (userId c) inp db) [0..<toLength (imageNum inp)]\<rparr>,
      started = (case createAsyncCaller E of
                   None \<Rightarrow> map (callFor inp) (taskPairs E (userId c) inp db)
                 | Some e \<Rightarrow> []),
      store = (case createAsyncCaller E of
                 None \<Rightarrow> written E (userId c) inp db
               | Some e \<Rightarrow>
                   markAllFailed E (userId c) e
                     (map (\<lambda>k. firstTaskId inp db + k) [0..<toLength (imageNum inp)])
                     (written E (userId c) inp db))\<rparr>"
  by (simp add: createImage_def transaction_commits [OF assms] taskPairs_fst taskPairs_snd
      split: option.splits)

lemma mapThrowing_ok:
  "list_all (\<lambda>x. \<not> isl (f x)) xs \<Longrightarrow> mapThrowing f xs = Inr (map (\<lambda>x. projr (f x)) xs)"
  by (induction xs) (auto split: sum.splits)

lemma mapThrowing_fail:
  "\<not> list_all (\<lambda>x. \<not> isl (f x)) xs \<Longrightarrow> isl (mapThrowing f xs)"
  by (induction xs) (auto split: sum.splits)

lemma written_generations:
  "generations (written E uid inp db) =
     generations db @
     map (\<lambda>ga. (fst ga)\<lparr>g_asyncTaskId := Some (snd ga)\<rparr>) (taskPairs E uid inp db)"
  by (simp add: written_def taskPairs_def linkedGeneration_def comp_def)

lemma taskPairs_distinct:
  "distinct (map snd (taskPairs E uid inp db)) \<and>
   distinct (map (g_id \<circ> fst) (taskPairs E uid inp db))"
  unfolding taskPairs_ids taskPairs_snd by (simp add: distinct_map inj_on_def)

lemma example_facts:
  "toLength (imageNum exampleInput) = 2" "nextId emptyDatabase = 0"
  "params exampleInput = exampleParams" "userId exampleCtx = ''user''"
  "generations emptyDatabase = []" "asyncTasks emptyDatabase = []"
  "generationBatches emptyDatabase = []"
  by (simp_all add: exampleInput_def emptyDatabase_def toLength_def exampleCtx_def)

lemma example_pairs:
  "map snd (taskPairs E uid exampleInput emptyDatabase) = [3, 4]"
  "map (g_id \<circ> fst) (taskPairs E uid exampleInput emptyDatabase) = [1, 2]"
  by (simp_all add: taskPairs_def firstTaskId_def insertedGeneration_def example_facts upt_2)

subsection \<open>Seeds and the collaborators used before the commit\<close>

lemma onSettled_frame:
  "generationBatches (onSettled E uid tid s d) = generationBatches d \<and>
   generations (onSettled E uid tid s d) = generations d \<and>
   nextId (onSettled E uid tid s d) = nextId d \<and>
   map t_id (asyncTasks (onSettled E uid tid s d)) = map t_id (asyncTasks d)"
  by (cases s) (simp_all add: settleUpdate_frame)

lemma store_generations:
  assumes "wf_database db" and "commits E inp"
  shows "generations (store (createImage E c inp db)) =
     generations db @ map (linkedGeneration E (userId c) inp db) [0..<toLength (imageNum inp)]"
  by (simp add: createImage_committed [OF assms] markAllFailed_frame written_def
      split: option.splits)

lemma linked_seed:
  "g_seed (linkedGeneration E uid inp db k) = seedAt (seeds E (imageNum inp) (params inp)) k"
  by (simp add: linkedGeneration_def insertedGeneration_def)

lemma linked_seeds:
  "map g_seed (map (linkedGeneration E uid inp db) [0..<n]) =
     map (seedAt (seeds E (imageNum inp) (params inp))) [0..<n]"
  by (simp add: linked_seed comp_def)

lemma seedAt_all: "map (seedAt xs) [0..<length xs] = xs"
  by (rule nth_equalityI) (simp_all add: seedAt_def)

lemma example_seeds: "generateUniqueSeeds exampleEnv 2 = [7, 8]"
  by (simp add: exampleEnv_def upt_2[unfolded numeral_2_eq_2] numeral_2_eq_2)

lemma commits_withSeed: "commits E (withSeed v inp) = commits E inp"
  by (simp add: commits_def withSeed_def)

lemma seeds_present:
  "seed p = Some v \<Longrightarrow> seeds E n p = map Some (generateUniqueSeeds E n)"
  by (simp add: seeds_def)

lemma configForDatabase_cong:
  "getKeyFromFullUrl E' = getKeyFromFullUrl E \<Longrightarrow> configForDatabase E' p = configForDatabase E p"
  by (cases "imageUrls p") (simp_all add: configForDatabase_def)

lemma seeds_cong:
  "generateUniqueSeeds E' = generateUniqueSeeds E \<Longrightarrow> seeds E' n p = seeds E n p"
  by (cases "seed p") (simp_all add: seeds_def)

lemma sameUntilCommit_commits:
  "sameUntilCommit E E' (toLength (imageNum inp)) \<Longrightarrow> commits E inp \<Longrightarrow> commits E' inp"
  by (auto simp: sameUntilCommit_def commits_def list_all_iff)

subsection \<open>Status updates\<close>

lemma example_started:
  "map taskId (started (createImage exampleEnv exampleCtx exampleInput emptyDatabase)) = [3, 4]"
proof -
  have "createAsyncCaller exampleEnv = None" by (simp add: exampleEnv_def)
  then show ?thesis
    unfolding createImage_committed [OF emptyDatabase_wf exampleEnv_commits]
    by (simp add: callFor_def comp_def example_pairs [unfolded comp_def])
qed

lemma sameUntilCommit_example: "sameUntilCommit exampleEnv unluckyEnv n"
  by (auto simp: sameUntilCommit_def unluckyEnv_def exampleEnv_def txOps_def bodyOps_def
      list_all_iff)


lemma wf_old_tasks:
  "wf_database db \<Longrightarrow> list_all (\<lambda>t. t_id t < firstTaskId inp db) (asyncTasks db)"
  by (auto simp: wf_database_def firstTaskId_def list_all_iff)

lemma written_tasks:
  "asyncTasks (written E uid inp db) =
     asyncTasks db @ map (\<lambda>j. pendingTask uid (firstTaskId inp db + j)) [0..<toLength (imageNum inp)]"
  by (simp add: written_def)

lemma example_store_tasks:
  "asyncTasks (store (createImage exampleEnv exampleCtx exampleInput emptyDatabase)) =
     [pendingTask ''user'' 3, pendingTask ''user'' 4]"
proof -
  have "createAsyncCaller exampleEnv = None" by (simp add: exampleEnv_def)
  then show ?thesis
    unfolding createImage_committed [OF emptyDatabase_wf exampleEnv_commits]
    by (simp add: written_tasks example_facts firstTaskId_def upt_2 pendingTask_def)
qed

lemma markRow_step:
  "markRow E uid e tids
     (if dbError E (UpdateAsyncTask tid) = None
      then setStatus tid uid Error (failedToProcess e) t else t) =
   markRow E uid e (tid # tids) t"
  by (auto simp: markRow_def setStatus_def)

lemma markAllFailed_rows:
  "asyncTasks (markAllFailed E uid e tids db) = map (markRow E uid e tids) (asyncTasks db)"
proof (induction tids arbitrary: db)
  case Nil
  show ?case by (simp add: markAllFailed_def markRow_def)
next
  case (Cons tid tids)
  let ?d = "settleUpdate (asyncTaskModel_update E uid tid Error (failedToProcess e) db) db"
  have d: "asyncTasks ?d =
      map (\<lambda>t. if dbError E (UpdateAsyncTask tid) = None
                then setStatus tid uid Error (failedToProcess e) t else t) (asyncTasks db)"
    by (cases "dbError E (UpdateAsyncTask tid)")
       (simp_all add: settleUpdate_def asyncTaskModel_update_def)
  have "asyncTasks (markAllFailed E uid e (tid # tids) db) =
      asyncTasks (markAllFailed E uid e tids ?d)"
    by (simp add: markAllFailed_def)
  also have "\<dots> = map (markRow E uid e tids) (asyncTasks ?d)"
    by (rule Cons.IH)
  also have "\<dots> = map (markRow E uid e (tid # tids)) (asyncTasks db)"
    unfolding d by (simp add: markRow_step comp_def)
  finally show ?case .
qed

lemma markRow_tasks:
  assumes old: "list_all (\<lambda>t. t_id t < first) old"
  shows "map (markRow E uid e (map (\<lambda>k. first + k) [0..<n]))
       (old @ map (\<lambda>j. pendingTask uid (first + j)) [0..<n]) =
     old @ map (\<lambda>j. markRow E uid e [first + j] (pendingTask uid (first + j))) [0..<n]"
proof -
  have "markRow E uid e (map (\<lambda>k. first + k) [0..<n]) t = t" if "t \<in> set old" for t
  proof -
    from that old have "t_id t < first" by (simp add: list_all_iff)
    then show ?thesis by (auto simp: markRow_def)
  qed
  then have "map (markRow E uid e (map (\<lambda>k. first + k) [0..<n])) old = old"
    by (simp add: map_idI)
  moreover have "markRow E uid e (map (\<lambda>k. first + k) [0..<n]) (pendingTask uid (first + j)) =
      markRow E uid e [first + j] (pendingTask uid (first + j))" if "j < n" for j
    using that by (simp add: markRow_def pendingTask_def)
  ultimately show ?thesis by simp
qed

lemma unluckyEnv_commits: "commits unluckyEnv exampleInput"
  by (auto simp: commits_def txOps_def bodyOps_def unluckyEnv_def list_all_iff)

subsection \<open>The rows of the tasks over time\<close>

lemma onSettled_rows:
  "asyncTasks (onSettled E uid (fst ev) (snd ev) d) = map (settleRow E uid ev) (asyncTasks d)"
proof (cases "snd ev")
  case Resolved
  then show ?thesis by (simp add: settleRow_def)
next
  case (Rejected e)
  then show ?thesis
    by (cases "dbError E (UpdateAsyncTask (fst ev))")
       (simp_all add: settleRow_def settleUpdate_def asyncTaskModel_update_def)
qed

lemma background_rows:
  "asyncTasks (background E uid events d) = map (backgroundRow E uid events) (asyncTasks d)"
proof (induction events arbitrary: d)
  case Nil
  show ?case by (simp add: background_def backgroundRow_def)
next
  case (Cons ev events)
  have "asyncTasks (background E uid (ev # events) d) =
      asyncTasks (background E uid events (onSettled E uid (fst ev) (snd ev) d))"
    by (simp add: background_def)
  also have "\<dots> = map (backgroundRow E uid events)
      (asyncTasks (onSettled E uid (fst ev) (snd ev) d))"
    by (rule Cons.IH)
  also have "\<dots> = map (backgroundRow E uid (ev # events)) (asyncTasks d)"
    unfolding onSettled_rows by (simp add: backgroundRow_def comp_def)
  finally show ?case .
qed

lemma settleRow_other: "t_id t \<noteq> fst ev \<Longrightarrow> settleRow E uid ev t = t"
  by (auto simp: settleRow_def setStatus_def split: settlement.splits)

lemma settleRow_id [simp]: "t_id (settleRow E uid ev t) = t_id t"
  by (auto simp: settleRow_def setStatus_def split: settlement.splits)

lemma settleRow_move:
  "(t_userId t = uid \<Longrightarrow> t_status t = Pending) \<Longrightarrow> taskMove t (settleRow E uid ev t)"
  by (auto simp: settleRow_def setStatus_def taskMove_def split: settlement.splits)

lemma backgroundRow_other:
  "t_id t \<notin> set (map fst events) \<Longrightarrow> backgroundRow E uid events t = t"
  unfolding backgroundRow_def
  by (induction events arbitrary: t) (simp_all add: settleRow_other)

lemma taskMove_refl: "taskMove t t"
  by (simp add: taskMove_def)

lemma backgroundRow_move:
  assumes "distinct (map fst events)"
    and "t_id t \<in> set (map fst events) \<Longrightarrow> t_userId t = uid \<Longrightarrow> t_status t = Pending"
  shows "taskMove t (backgroundRow E uid events t)"
  using assms
proof (induction events)
  case Nil
  show ?case by (simp add: backgroundRow_def taskMove_refl)
next
  case (Cons ev events)
  have step: "backgroundRow E uid (ev # events) t = backgroundRow E uid events (settleRow E uid ev t)"
    by (simp add: backgroundRow_def)
  show ?case
  proof (cases "t_id t = fst ev")
    case True
    then have "t_id (settleRow E uid ev t) \<notin> set (map fst events)"
      using Cons.prems(1) by simp
    then have "backgroundRow E uid (ev # events) t = settleRow E uid ev t"
      unfolding step by (rule backgroundRow_other)
    moreover have "taskMove t (settleRow E uid ev t)"
      using Cons.prems(2) True by (intro settleRow_move) simp
    ultimately show ?thesis by simp
  next
    case False
    then have "settleRow E uid ev t = t" by (rule settleRow_other)
    then have "backgroundRow E uid (ev # events) t = backgroundRow E uid events t"
      unfolding step by simp
    moreover have "taskMove t (backgroundRow E uid events t)"
      using Cons.IH Cons.prems False by simp
    ultimately show ?thesis by simp
  qed
qed

lemma createImage_rolled_back:
  assumes "\<not> commits E inp"
  shows "started (createImage E c inp db) = [] \<and> store (createImage E c inp db) = db \<and>
     snd (transaction E (createRecords E (userId c) inp) db) = db"
proof (cases "transaction E (createRecords E (userId c) inp) db")
  case (Pair res db')
  show ?thesis
  proof (cases res)
    case (Inl e)
    from transaction_Inl [OF Pair [unfolded Inl]] show ?thesis
      by (simp add: createImage_def Pair Inl)
  next
    case (Inr r)
    from transaction_Inr [OF Pair [unfolded Inr]] assms show ?thesis by simp
  qed
qed

lemma started_tasks_pending:
  assumes "wf_database db"
    and "t \<in> set (asyncTasks (store (createImage E c inp db)))"
    and "t_id t \<in> set (map taskId (started (createImage E c inp db)))"
  shows "t_status t = Pending"
proof (cases "commits E inp \<and> createAsyncCaller E = None")
  case True
  then have co: "commits E inp" and ca: "createAsyncCaller E = None" by simp_all
  have st: "store (createImage E c inp db) = written E (userId c) inp db"
    and sd: "map taskId (started (createImage E c inp db)) =
      map (\<lambda>k. firstTaskId inp db + k) [0..<toLength (imageNum inp)]"
    by (simp_all add: createImage_committed [OF assms(1) co] ca callFor_def comp_def
        taskPairs_def)
  from assms(2) have "t \<in> set (asyncTasks db) \<or>
      t \<in> set (map (\<lambda>j. pendingTask (userId c) (firstTaskId inp db + j))
                 [0..<toLength (imageNum inp)])"
    unfolding st written_tasks by simp
  then show ?thesis
  proof
    assume "t \<in> set (asyncTasks db)"
    with wf_old_tasks [OF assms(1), of inp] have "t_id t < firstTaskId inp db"
      by (simp add: list_all_iff)
    with assms(3) show ?thesis unfolding sd by auto
  next
    assume "t \<in> set (map (\<lambda>j. pendingTask (userId c) (firstTaskId inp db + j))
                 [0..<toLength (imageNum inp)])"
    then show ?thesis by (auto simp: pendingTask_def)
  qed
next
  case False
  have "started (createImage E c inp db) = []"
  proof (cases "commits E inp")
    case True
    with False obtain e where "createAsyncCaller E = Some e" by auto
    then show ?thesis by (simp add: createImage_committed [OF assms(1) True])
  next
    case False
    then show ?thesis by (simp add: createImage_rolled_back)
  qed
  with assms(3) show ?thesis by simp
qed

lemma markRow_move:
  "(t_id t \<in> set tids \<Longrightarrow> t_status t = Pending) \<Longrightarrow> taskMove t (markRow E uid e tids t)"
  by (auto simp: markRow_def taskMove_def)

lemma handler_moves:
  assumes "wf_database db"
  shows "list_all2 taskMove
     (asyncTasks (snd (transaction E (createRecords E (userId c) inp) db)))
     (asyncTasks (store (createImage E c inp db)))"
proof (cases "commits E inp")
  case False
  then show ?thesis
    by (simp add: createImage_rolled_back list_all2_same taskMove_refl)
next
  case True
  have tx: "snd (transaction E (createRecords E (userId c) inp) db) = written E (userId c) inp db"
    by (simp add: transaction_commits [OF assms True])
  show ?thesis
  proof (cases "createAsyncCaller E")
    case None
    then show ?thesis
      unfolding tx
      by (simp add: createImage_committed [OF assms True] list_all2_same taskMove_refl)
  next
    case (Some e)
    let ?tids = "map (\<lambda>k. firstTaskId inp db + k) [0..<toLength (imageNum inp)]"
    have st: "asyncTasks (store (createImage E c inp db)) =
        map (markRow E (userId c) e ?tids) (asyncTasks (written E (userId c) inp db))"
      by (simp add: createImage_committed [OF assms True] Some markAllFailed_rows)
    have "taskMove t (markRow E (userId c) e ?tids t)"
      if "t \<in> set (asyncTasks (written E (userId c) inp db))" for t
    proof (rule markRow_move)
      assume m: "t_id t \<in> set ?tids"
      from that have "t \<in> set (asyncTasks db) \<or>
          t \<in> set (map (\<lambda>j. pendingTask (userId c) (firstTaskId inp db + j))
                 [0..<toLength (imageNum inp)])"
        unfolding written_tasks by simp
      then show "t_status t = Pending"
      proof
        assume "t \<in> set (asyncTasks db)"
        with wf_old_tasks [OF assms, of inp] have "t_id t < firstTaskId inp db"
          by (simp add: list_all_iff)
        with m show ?thesis by auto
      next
        assume "t \<in> set (map (\<lambda>j. pendingTask (userId c) (firstTaskId inp db + j))
                 [0..<toLength (imageNum inp)])"
        then show ?thesis by (auto simp: pendingTask_def)
      qed
    qed
    then show ?thesis
      unfolding tx st by (simp add: list_all2_map2 list_all2_same)
  qed
qed

lemma created_pending:
  assumes "wf_database db"
  shows "list_all (\<lambda>t. t_status t = Pending)
     (drop (length (asyncTasks db))
        (asyncTasks (snd (transaction E (createRecords E uid inp) db))))"
proof (cases "commits E inp")
  case False
  show ?thesis using createImage_rolled_back [OF False, of "\<lparr>userId = uid\<rparr>" db] by simp
next
  case True
  show ?thesis
    by (simp add: transaction_commits [OF assms True] written_tasks list_all_iff pendingTask_def)
qed

subsection \<open>The concrete request as a whole\<close>

lemma example_config:
  "configForDatabase E exampleParams =
     (case getKeyFromFullUrl E ''https://cdn/x.png'' of
        Inl e \<Rightarrow> exampleParams
      | Inr key \<Rightarrow> exampleParams\<lparr>imageUrls := Some [key]\<rparr>)"
  by (simp add: configForDatabase_def exampleParams_def split: sum.splits)

lemma example_request:
  "fst (request exampleEnv exampleCtx exampleInput emptyDatabase) =
     Inr \<lparr>success = True,
          batch = \<lparr>b_id = 0, b_userId = ''user'', b_generationTopicId = ''topic'',
                   b_provider = ''fal'', b_model = ''flux'', b_prompt = ''a cat'',
                   b_width = Some 512, b_height = Some 512,
                   b_config = exampleParams\<lparr>imageUrls := Some [''x.png'']\<rparr>\<rparr>,
          r_generations =
            [\<lparr>g_id = 1, g_userId = ''user'', g_generationBatchId = 0, g_seed = Some 7,
               g_asyncTaskId = None\<rparr>,
             \<lparr>g_id = 2, g_userId = ''user'', g_generationBatchId = 0, g_seed = Some 8,
               g_asyncTaskId = None\<rparr>]\<rparr>"
proof -
  have k: "getKeyFromFullUrl exampleEnv ''https://cdn/x.png'' = Inr ''x.png''"
    by (simp add: exampleEnv_def storageKey_def)
  have b: "newBatch exampleEnv ''user'' exampleInput emptyDatabase =
      \<lparr>b_id = 0, b_userId = ''user'', b_generationTopicId = ''topic'',
       b_provider = ''fal'', b_model = ''flux'', b_prompt = ''a cat'',
       b_width = Some 512, b_height = Some 512,
       b_config = exampleParams\<lparr>imageUrls := Some [''x.png'']\<rparr>\<rparr>"
    unfolding newBatch_def example_facts example_config k
    by (simp add: exampleInput_def exampleParams_def)
  have s: "seeds exampleEnv (imageNum exampleInput) (params exampleInput) = [Some 7, Some 8]"
    by (simp add: seeds_def exampleInput_def exampleParams_def example_seeds)
  have g: "map (insertedGeneration exampleEnv ''user'' exampleInput emptyDatabase)
        [0..<toLength (imageNum exampleInput)] =
      [\<lparr>g_id = 1, g_userId = ''user'', g_generationBatchId = 0, g_seed = Some 7,
         g_asyncTaskId = None\<rparr>,
       \<lparr>g_id = 2, g_userId = ''user'', g_generationBatchId = 0, g_seed = Some 8,
         g_asyncTaskId = None\<rparr>]"
    unfolding example_facts upt_2
    by (simp add: insertedGeneration_def s s [unfolded example_facts(3)] example_facts
        seedAt_def)
  show ?thesis
    unfolding request_def Let_def createImage_committed [OF emptyDatabase_wf exampleEnv_commits]
    by (simp add: example_facts b g [unfolded example_facts(1)])
qed

lemma example_outcome:
  assumes "commits E exampleInput" and "createAsyncCaller E = None"
  obtains c3 c4 where
    "started (createImage E exampleCtx exampleInput emptyDatabase) = [c3, c4]"
    "taskId c3 = 3" "taskId c4 = 4"
    "asyncTasks (store (createImage E exampleCtx exampleInput emptyDatabase)) =
       [pendingTask ''user'' 3, pendingTask ''user'' 4]"
proof -
  let ?out = "createImage E exampleCtx exampleInput emptyDatabase"
  have "map taskId (started ?out) = [3, 4]"
    unfolding createImage_committed [OF emptyDatabase_wf assms(1)]
    by (simp add: assms(2) callFor_def comp_def example_pairs [unfolded comp_def])
  then obtain c3 c4 where c: "started ?out = [c3, c4]" "taskId c3 = 3" "taskId c4 = 4"
    by (auto simp: map_eq_Cons_conv)
  have "asyncTasks (store ?out) = [pendingTask ''user'' 3, pendingTask ''user'' 4]"
    unfolding createImage_committed [OF emptyDatabase_wf assms(1)]
    by (simp add: assms(2) written_tasks example_facts firstTaskId_def upt_2 pendingTask_def)
  with c show thesis by (rule that)
qed

lemma example_request_store:
  "map t_status (asyncTasks (snd (request exampleEnv exampleCtx exampleInput emptyDatabase))) =
     [Pending, Pending]"
proof -
  have ca: "createAsyncCaller exampleEnv = None" by (simp add: exampleEnv_def)
  from example_outcome [OF exampleEnv_commits ca] obtain c3 c4 where
    o: "started (createImage exampleEnv exampleCtx exampleInput emptyDatabase) = [c3, c4]"
      "asyncTasks (store (createImage exampleEnv exampleCtx exampleInput emptyDatabase)) =
       [pendingTask ''user'' 3, pendingTask ''user'' 4]"
    by blast
  have s: "settlements exampleEnv [c3, c4] = [(taskId c3, Resolved), (taskId c4, Resolved)]"
    by (simp add: settlements_def exampleEnv_def)
  show ?thesis
    unfolding request_def Let_def snd_conv background_rows o s
    by (simp add: backgroundRow_def settleRow_def pendingTask_def)
qed

lemma rejecting_request_store:
  "map t_status (asyncTasks (snd (request rejectingEnv exampleCtx exampleInput emptyDatabase))) =
     [Error, Pending]"
proof -
  have ca: "createAsyncCaller rejectingEnv = None" by (simp add: rejectingEnv_def exampleEnv_def)
  have co: "commits rejectingEnv exampleInput"
    using exampleEnv_commits by (simp add: commits_def rejectingEnv_def)
  have ok: "dbError rejectingEnv op = None" for op
    by (simp add: rejectingEnv_def exampleEnv_def)
  from example_outcome [OF co ca] obtain c3 c4 where
    o: "started (createImage rejectingEnv exampleCtx exampleInput emptyDatabase) = [c3, c4]"
      "asyncTasks (store (createImage rejectingEnv exampleCtx exampleInput emptyDatabase)) =
       [pendingTask ''user'' 3, pendingTask ''user'' 4]"
    and t: "taskId c3 = 3" "taskId c4 = 4"
    by blast
  have s: "settlements rejectingEnv [c3, c4] = [(3, Rejected (ErrorObj ''timeout''))]"
    by (simp add: settlements_def rejectingEnv_def t)
  show ?thesis
    unfolding request_def Let_def snd_conv background_rows o s
    by (simp add: backgroundRow_def settleRow_def pendingTask_def ok setStatus_def example_facts)
qed

lemma unlucky_request_store:
  "map t_status (asyncTasks (snd (request unluckyEnv exampleCtx exampleInput emptyDatabase))) =
     [Error, Pending]"
proof -
  have ca: "createAsyncCaller unluckyEnv = Some (Other None)" by (simp add: unluckyEnv_def)
  have f: "dbError unluckyEnv (UpdateAsyncTask 3) = None"
    "dbError unluckyEnv (UpdateAsyncTask 4) \<noteq> None"
    by (simp_all add: unluckyEnv_def)
  have st: "started (createImage unluckyEnv exampleCtx exampleInput emptyDatabase) = []"
    by (simp add: createImage_committed [OF emptyDatabase_wf unluckyEnv_commits] ca)
  have "map t_status
      (asyncTasks (store (createImage unluckyEnv exampleCtx exampleInput emptyDatabase))) =
      [Error, Pending]"
    unfolding createImage_committed [OF emptyDatabase_wf unluckyEnv_commits]
    by (simp add: ca markAllFailed_rows written_tasks example_facts firstTaskId_def upt_2
        pendingTask_def markRow_def unluckyEnv_def)
  then show ?thesis
    unfolding request_def Let_def snd_conv st
    by (simp add: settlements_def background_def)
qed

subsection \<open>Status writes on tasks in any state\<close>

lemma statusWrite_refl: "statusWrite t t"
  by (simp add: statusWrite_def)

lemma statusWrite_trans:
  assumes "statusWrite t t'" and "statusWrite t' t''"
  shows "statusWrite t t''"
proof -
  from assms(1) consider "t' = t" | "t' = t\<lparr>t_status := Error, t_error := t_error t'\<rparr>"
    by (auto simp: statusWrite_def)
  then show ?thesis
  proof cases
    case 1
    with assms(2) show ?thesis by simp
  next
    case 2
    from assms(2) consider "t'' = t'" | "t'' = t'\<lparr>t_status := Error, t_error := t_error t''\<rparr>"
      by (auto simp: statusWrite_def)
    then show ?thesis
    proof cases
      case 1
      with assms(1) show ?thesis by simp
    next
      case b: 2
      have "t'' = t\<lparr>t_status := Error, t_error := t_error t''\<rparr>"
        by (subst b, subst 2) simp
      then show ?thesis by (simp add: statusWrite_def)
    qed
  qed
qed

lemma settleRow_write: "statusWrite t (settleRow E uid ev t)"
  by (auto simp: settleRow_def setStatus_def statusWrite_def split: settlement.splits)

lemma backgroundRow_write: "statusWrite t (backgroundRow E uid events t)"
proof (induction events arbitrary: t)
  case Nil
  show ?case by (simp add: backgroundRow_def statusWrite_refl)
next
  case (Cons ev events)
  have "backgroundRow E uid (ev # events) t = backgroundRow E uid events (settleRow E uid ev t)"
    by (simp add: backgroundRow_def)
  with statusWrite_trans [OF settleRow_write Cons.IH] show ?case by simp
qed

lemma background_writes:
  "list_all2 statusWrite (asyncTasks d) (asyncTasks (background E uid events d))"
  unfolding background_rows
  by (simp add: list_all2_map2 list_all2_same backgroundRow_write)

lemma markRow_write: "statusWrite t (markRow E uid e tids t)"
  by (simp add: markRow_def statusWrite_def)

lemma markAllFailed_writes:
  "list_all2 statusWrite (asyncTasks d) (asyncTasks (markAllFailed E uid e tids d))"
  unfolding markAllFailed_rows
  by (simp add: list_all2_map2 list_all2_same markRow_write)

lemma rejected_statuses:
  assumes "dbError E (UpdateAsyncTask tid) = None"
  shows "map t_status (asyncTasks (onSettled E uid tid (Rejected e) d)) =
     map (\<lambda>t. if t_id t = tid \<and> t_userId t = uid then Error else t_status t) (asyncTasks d)"
  using assms
  by (simp add: settleUpdate_def asyncTaskModel_update_def setStatus_def comp_def)

lemma example_succeeded_tasks:
  "asyncTasks (remoteSuccess 3 (store (createImage exampleEnv exampleCtx exampleInput emptyDatabase))) =
     [(pendingTask ''user'' 3)\<lparr>t_status := Success\<rparr>, pendingTask ''user'' 4]"
  by (simp add: remoteSuccess_def example_store_tasks pendingTask_def)

lemma example_succeeded_then_rejected:
  "map t_status (asyncTasks (onSettled exampleEnv (userId exampleCtx) 3
       (Rejected (ErrorObj ''socket hang up''))
       (remoteSuccess 3 (store (createImage exampleEnv exampleCtx exampleInput emptyDatabase))))) =
     [Error, Pending]"
proof -
  have ok: "dbError exampleEnv (UpdateAsyncTask 3) = None" by (simp add: exampleEnv_def)
  show ?thesis
    unfolding rejected_statuses [OF ok] example_succeeded_tasks
    by (simp add: pendingTask_def example_facts)
qed

section \<open>The claims\<close>

text \<open>
  C1. Let the database have fresh identifiers and the number of images be a count
  (not negative). When the call succeeds, the body of the transaction has written,
  and the transaction has committed unchanged, one batch row, exactly \<open>imageNum\<close>
  generation rows of that batch and exactly \<open>imageNum\<close> task rows, every task
  Pending; the \<open>k\<close>-th generation carries the identifier of the \<open>k\<close>-th task, and
  the identifiers of the tasks are pairwise distinct. The references are in the state
  the body hands to the commit, so they are written inside the transaction. What
  the handler does after the commit leaves the batch and generation rows and the
  identifiers of the task rows as they are.
\<close>

theorem createImage_creates_rows:
  assumes "wf_database db" and "0 \<le> imageNum inp"
    and "response (createImage E c inp db) = Inr r"
  shows "\<exists>b pairs gs ts db'.
     createRecords E (userId c) inp db = Inr ((b, pairs), db') \<and>
     transaction E (createRecords E (userId c) inp) db = (Inr (b, pairs), db') \<and>
     generationBatches db' = generationBatches db @ [b] \<and>
     generations db' = generations db @ gs \<and>
     asyncTasks db' = asyncTasks db @ ts \<and>
     int (length gs) = imageNum inp \<and>
     int (length ts) = imageNum inp \<and>
     list_all (\<lambda>g. g_generationBatchId g = b_id b) gs \<and>
     list_all (\<lambda>t. t_status t = Pending) ts \<and>
     map g_asyncTaskId gs = map (\<lambda>t. Some (t_id t)) ts \<and>
     distinct (map t_id ts) \<and>
     generationBatches (store (createImage E c inp db)) = generationBatches db' \<and>
     generations (store (createImage E c inp db)) = generations db' \<and>
     map t_id (asyncTasks (store (createImage E c inp db))) = map t_id (asyncTasks db')"
proof -
  let ?N = "toLength (imageNum inp)"
  let ?uid = "userId c"
  let ?gs = "map (linkedGeneration E ?uid inp db) [0..<?N]"
  let ?ts = "map (\<lambda>k. pendingTask ?uid (firstTaskId inp db + k)) [0..<?N]"
  have co: "commits E inp" by (rule createImage_commits [OF assms(3)])
  then have ok: "\<forall>op \<in> set (bodyOps ?N). dbError E op = None"
    by (simp add: commits_def txOps_def list_all_iff)
  have N: "int ?N = imageNum inp" using assms(2) by (simp add: toLength_def)
  have body: "createRecords E ?uid inp db =
      Inr ((newBatch E ?uid inp db, taskPairs E ?uid inp db), written E ?uid inp db)"
    by (rule createRecords_ok [OF assms(1) ok])
  have tx: "transaction E (createRecords E ?uid inp) db =
      (Inr (newBatch E ?uid inp db, taskPairs E ?uid inp db), written E ?uid inp db)"
    by (rule transaction_commits [OF assms(1) co])
  have b: "generationBatches (written E ?uid inp db) =
      generationBatches db @ [newBatch E ?uid inp db]"
    and g: "generations (written E ?uid inp db) = generations db @ ?gs"
    and t: "asyncTasks (written E ?uid inp db) = asyncTasks db @ ?ts"
    by (simp_all add: written_def)
  have lg: "int (length ?gs) = imageNum inp" and lt: "int (length ?ts) = imageNum inp"
    using N by simp_all
  have gb: "list_all (\<lambda>g. g_generationBatchId g = b_id (newBatch E ?uid inp db)) ?gs"
    by (simp add: list_all_iff linkedGeneration_def insertedGeneration_def newBatch_def)
  have pe: "list_all (\<lambda>t. t_status t = Pending) ?ts"
    by (simp add: list_all_iff pendingTask_def)
  have link: "map g_asyncTaskId ?gs = map (\<lambda>t. Some (t_id t)) ?ts"
    by (simp add: linkedGeneration_def pendingTask_def)
  have "map t_id ?ts = map (\<lambda>k. firstTaskId inp db + k) [0..<?N]"
    by (simp add: pendingTask_def)
  then have di: "distinct (map t_id ?ts)"
    by (simp add: distinct_map inj_on_def)
  from body tx b g t lg lt gb pe link di createImage_store_frame [OF tx]
  show ?thesis by blast
qed

theorem createImage_creates_rows_witness:
  "wf_database emptyDatabase \<and> 0 \<le> imageNum exampleInput \<and>
   (\<exists>r. response (createImage exampleEnv exampleCtx exampleInput emptyDatabase) = Inr r) \<and>
   length (generationBatches (store (createImage exampleEnv exampleCtx exampleInput emptyDatabase))) = 1 \<and>
   length (generations (store (createImage exampleEnv exampleCtx exampleInput emptyDatabase))) = 2 \<and>
   length (asyncTasks (store (createImage exampleEnv exampleCtx exampleInput emptyDatabase))) = 2"
proof -
  have n: "0 \<le> imageNum exampleInput" "imageNum exampleInput = 2"
    by (simp_all add: exampleInput_def)
  have e: "generationBatches emptyDatabase = []" "generations emptyDatabase = []"
    "asyncTasks emptyDatabase = []"
    by (simp_all add: emptyDatabase_def)
  from createImage_creates_rows [OF emptyDatabase_wf n(1) example_response]
  obtain b gs ts and db' :: database where
    "generationBatches db' = generationBatches emptyDatabase @ [b]"
    "generations db' = generations emptyDatabase @ gs"
    "asyncTasks db' = asyncTasks emptyDatabase @ ts"
    "int (length gs) = imageNum exampleInput"
    "int (length ts) = imageNum exampleInput"
    "generationBatches (store (createImage exampleEnv exampleCtx exampleInput emptyDatabase)) =
       generationBatches db'"
    "generations (store (createImage exampleEnv exampleCtx exampleInput emptyDatabase)) =
       generations db'"
    "map t_id (asyncTasks (store (createImage exampleEnv exampleCtx exampleInput emptyDatabase))) =
       map t_id (asyncTasks db')"
    by blast
  then have "length (generationBatches (store (createImage exampleEnv exampleCtx exampleInput emptyDatabase))) = 1"
    "length (generations (store (createImage exampleEnv exampleCtx exampleInput emptyDatabase))) = 2"
    "length (map t_id (asyncTasks (store (createImage exampleEnv exampleCtx exampleInput emptyDatabase)))) = 2"
    by (simp_all add: e n(2))
  then show ?thesis using emptyDatabase_wf n(1) example_response by simp
qed

text \<open>
  C2. When a statement of the transaction fails (the insert of the batch, of the
  generations or of a task, the update of a generation, or the commit), the database
  after the request is the database before it: no batch, generation or task row has
  appeared. No remote call is started, and the handler throws to its caller the very
  value the failing statement threw.
\<close>

theorem createImage_all_or_nothing:
  assumes "\<not> commits E inp"
  shows "store (createImage E c inp db) = db \<and>
         started (createImage E c inp db) = [] \<and>
         (\<exists>op e. op \<in> set (txOps (toLength (imageNum inp))) \<and> dbError E op = Some e \<and>
            response (createImage E c inp db) = Inl e)"
proof (cases "transaction E (createRecords E (userId c) inp) db")
  case (Pair res db')
  show ?thesis
  proof (cases res)
    case (Inl e)
    from transaction_Inl [OF Pair [unfolded Inl]] show ?thesis
      by (auto simp: createImage_def Pair Inl)
  next
    case (Inr r)
    from transaction_Inr [OF Pair [unfolded Inr]] assms show ?thesis by simp
  qed
qed

theorem createImage_all_or_nothing_witness:
  "\<not> commits failingEnv exampleInput \<and>
   store (createImage failingEnv exampleCtx exampleInput emptyDatabase) = emptyDatabase \<and>
   started (createImage failingEnv exampleCtx exampleInput emptyDatabase) = [] \<and>
   response (createImage failingEnv exampleCtx exampleInput emptyDatabase) =
     Inl (ErrorObj ''insert failed'')"
proof -
  have h: "\<not> commits failingEnv exampleInput"
    by (simp add: commits_def txOps_def bodyOps_def failingEnv_def exampleInput_def
        toLength_def upt_2)
  have e: "e = ErrorObj ''insert failed''" if "dbError failingEnv op = Some e" for op e
    using that by (simp add: failingEnv_def split: if_splits)
  from createImage_all_or_nothing [OF h, of exampleCtx emptyDatabase] h e
  show ?thesis by auto
qed



text \<open>
  C4. Let the transaction go through and the construction of the remote-call client
  throw \<open>e\<close>. Then no remote call is started, the request still succeeds, and the
  handler has attempted one status update per task of the batch: every task whose
  update succeeds has the status Error and the error of kind server error (with the
  message of \<open>e\<close> when \<open>e\<close> is an \<open>Error\<close>, a fixed text otherwise); a task whose
  update fails stays Pending, and that failure changes neither the other rows nor
  the response. The tasks are exactly the ones the generations of the batch refer to.
\<close>

theorem dispatch_failure_marks_tasks:
  assumes "wf_database db" and "commits E inp" and "createAsyncCaller E = Some e"
  shows "started (createImage E c inp db) = [] \<and>
     (\<exists>b gs. response (createImage E c inp db) =
        Inr \<lparr>success = True, batch = b, r_generations = gs\<rparr>) \<and>
     (\<exists>gs ts.
        generations (store (createImage E c inp db)) = generations db @ gs \<and>
        asyncTasks (store (createImage E c inp db)) = asyncTasks db @ ts \<and>
        length ts = toLength (imageNum inp) \<and>
        map g_asyncTaskId gs = map (\<lambda>t. Some (t_id t)) ts \<and>
        list_all (\<lambda>t.
          if dbError E (UpdateAsyncTask (t_id t)) = None
          then t_status t = Error \<and>
               t_error t = Some \<lparr>errorType = ServerError,
                 errorMessage = (case e of ErrorObj m \<Rightarrow> m
                                 | Other x \<Rightarrow> ''Failed to process async tasks'')\<rparr>
          else t_status t = Pending \<and> t_error t = None) ts)"
proof -
  let ?uid = "userId c"
  let ?N = "toLength (imageNum inp)"
  let ?ts = "map (\<lambda>j. markRow E ?uid e [firstTaskId inp db + j]
                      (pendingTask ?uid (firstTaskId inp db + j))) [0..<?N]"
  let ?gs = "map (linkedGeneration E ?uid inp db) [0..<?N]"
  have st: "store (createImage E c inp db) =
      markAllFailed E ?uid e (map (\<lambda>k. firstTaskId inp db + k) [0..<?N]) (written E ?uid inp db)"
    by (simp add: createImage_committed [OF assms(1,2)] assms(3))
  have t: "asyncTasks (store (createImage E c inp db)) = asyncTasks db @ ?ts"
    unfolding st markAllFailed_rows written_tasks
    by (rule markRow_tasks [OF wf_old_tasks [OF assms(1)]])
  have g: "generations (store (createImage E c inp db)) = generations db @ ?gs"
    by (rule store_generations [OF assms(1,2)])
  have l: "map g_asyncTaskId ?gs = map (\<lambda>t. Some (t_id t)) ?ts"
    by (simp add: linkedGeneration_def markRow_def pendingTask_def)
  have a: "list_all (\<lambda>t.
          if dbError E (UpdateAsyncTask (t_id t)) = None
          then t_status t = Error \<and>
               t_error t = Some \<lparr>errorType = ServerError,
                 errorMessage = (case e of ErrorObj m \<Rightarrow> m
                                 | Other x \<Rightarrow> ''Failed to process async tasks'')\<rparr>
          else t_status t = Pending \<and> t_error t = None) ?ts"
    by (auto simp: list_all_iff markRow_def pendingTask_def failedToProcess_def
        split: thrown.splits)
  have s: "started (createImage E c inp db) = []"
    by (simp add: createImage_committed [OF assms(1,2)] assms(3))
  have r: "\<exists>b gs. response (createImage E c inp db) =
        Inr \<lparr>success = True, batch = b, r_generations = gs\<rparr>"
    by (simp add: createImage_committed [OF assms(1,2)])
  have "length ?ts = ?N" by simp
  with s r t g l a show ?thesis by blast
qed

theorem dispatch_failure_marks_tasks_witness:
  "wf_database emptyDatabase \<and> commits unluckyEnv exampleInput \<and>
   createAsyncCaller unluckyEnv = Some (Other None) \<and>
   started (createImage unluckyEnv exampleCtx exampleInput emptyDatabase) = [] \<and>
   (\<exists>t3 t4. asyncTasks (store (createImage unluckyEnv exampleCtx exampleInput emptyDatabase)) =
        [t3, t4] \<and>
      t_status t3 = Error \<and>
      t_error t3 = Some \<lparr>errorType = ServerError,
                           errorMessage = ''Failed to process async tasks''\<rparr> \<and>
      t_status t4 = Pending)"
proof -
  let ?out = "createImage unluckyEnv exampleCtx exampleInput emptyDatabase"
  have h3: "createAsyncCaller unluckyEnv = Some (Other None)" by (simp add: unluckyEnv_def)
  have f: "dbError unluckyEnv (UpdateAsyncTask 3) = None"
    "dbError unluckyEnv (UpdateAsyncTask 4) \<noteq> None"
    by (simp_all add: unluckyEnv_def)
  from dispatch_failure_marks_tasks [OF emptyDatabase_wf unluckyEnv_commits h3, of exampleCtx]
  obtain gs ts where s: "started ?out = []"
    and g: "generations (store ?out) = generations emptyDatabase @ gs"
    and t: "asyncTasks (store ?out) = asyncTasks emptyDatabase @ ts"
    and n: "length ts = toLength (imageNum exampleInput)"
    and l: "map g_asyncTaskId gs = map (\<lambda>t. Some (t_id t)) ts"
    and a: "list_all (\<lambda>t.
          if dbError unluckyEnv (UpdateAsyncTask (t_id t)) = None
          then t_status t = Error \<and>
               t_error t = Some \<lparr>errorType = ServerError,
                 errorMessage = (case Other None of ErrorObj m \<Rightarrow> m
                                 | Other x \<Rightarrow> ''Failed to process async tasks'')\<rparr>
          else t_status t = Pending \<and> t_error t = None) ts"
    by blast
  have "map g_asyncTaskId (generations (store ?out)) = [Some 3, Some 4]"
    unfolding store_generations [OF emptyDatabase_wf unluckyEnv_commits]
    by (simp add: example_facts linkedGeneration_def insertedGeneration_def firstTaskId_def
        upt_2 comp_def)
  then have ids: "map t_id ts = [3, 4]"
    using l unfolding g by (simp add: example_facts map_eq_Cons_conv)
  then obtain t3 t4 where ts: "ts = [t3, t4]" "t_id t3 = 3" "t_id t4 = 4"
    by (auto simp: map_eq_Cons_conv)
  have "t_status t3 = Error"
    "t_error t3 = Some \<lparr>errorType = ServerError,
                           errorMessage = ''Failed to process async tasks''\<rparr>"
    "t_status t4 = Pending"
    using a f ts by auto
  then show ?thesis using emptyDatabase_wf unluckyEnv_commits h3 s t ts
    by (simp add: example_facts)
qed

text \<open>
  C5. Let the transaction commit, with the batch \<open>b\<close> and the pairs of generation and
  task it returns. The handler returns the success value whose batch is \<open>b\<close> and
  whose generations are the generations of the pairs, as the insert returned them.
  It returns the same value in every environment that agrees with this one up to the
  commit: whether or not the remote-call client can be constructed, however the
  remote calls settle, and whichever status updates fail. Meanwhile the background
  work does happen: the handler has started one call per pair when the client was
  constructed and has run the fallback over the tasks of the pairs when it was not,
  and the database a client sees afterwards is the one the continuations of the
  settled calls have written.
\<close>

theorem response_independent_of_background:
  assumes "wf_database db" and "commits E inp"
    and "sameUntilCommit E E' (toLength (imageNum inp))"
  shows "\<exists>b pairs db'.
     transaction E (createRecords E (userId c) inp) db = (Inr (b, pairs), db') \<and>
     generationBatches db' = generationBatches db @ [b] \<and>
     generations db' =
       generations db @ map (\<lambda>ga. (fst ga)\<lparr>g_asyncTaskId := Some (snd ga)\<rparr>) pairs \<and>
     length pairs = toLength (imageNum inp) \<and>
     fst (request E c inp db) =
       Inr \<lparr>success = True, batch = b, r_generations = map fst pairs\<rparr> \<and>
     fst (request E' c inp db) = fst (request E c inp db) \<and>
     started (createImage E c inp db) =
       (case createAsyncCaller E of None \<Rightarrow> map (callFor inp) pairs | Some e \<Rightarrow> []) \<and>
     snd (request E c inp db) =
       background E (userId c) (settlements E (started (createImage E c inp db)))
         (case createAsyncCaller E of
            None \<Rightarrow> db'
          | Some e \<Rightarrow> markAllFailed E (userId c) e (map snd pairs) db')"
proof -
  let ?uid = "userId c"
  have c': "commits E' inp" by (rule sameUntilCommit_commits [OF assms(3,2)])
  have k: "getKeyFromFullUrl E' = getKeyFromFullUrl E"
    and u: "generateUniqueSeeds E' = generateUniqueSeeds E"
    using assms(3) by (simp_all add: sameUntilCommit_def)
  have b: "newBatch E' ?uid inp db = newBatch E ?uid inp db"
    by (simp add: newBatch_def configForDatabase_cong [OF k])
  have g: "insertedGeneration E' ?uid inp db = insertedGeneration E ?uid inp db"
    by (rule ext) (simp add: insertedGeneration_def seeds_cong [OF u])
  have tx: "transaction E (createRecords E ?uid inp) db =
      (Inr (newBatch E ?uid inp db, taskPairs E ?uid inp db), written E ?uid inp db)"
    by (rule transaction_commits [OF assms(1,2)])
  have gb: "generationBatches (written E ?uid inp db) =
      generationBatches db @ [newBatch E ?uid inp db]"
    by (simp add: written_def)
  have len: "length (taskPairs E ?uid inp db) = toLength (imageNum inp)"
    by (simp add: taskPairs_def)
  have r: "fst (request E c inp db) =
      Inr \<lparr>success = True, batch = newBatch E ?uid inp db,
          r_generations = map fst (taskPairs E ?uid inp db)\<rparr>"
    by (simp add: request_def Let_def createImage_committed [OF assms(1,2)] taskPairs_fst)
  have r': "fst (request E' c inp db) = fst (request E c inp db)"
    by (simp add: request_def Let_def createImage_committed [OF assms(1,2)]
        createImage_committed [OF assms(1) c'] b g)
  have st: "started (createImage E c inp db) =
      (case createAsyncCaller E of
         None \<Rightarrow> map (callFor inp) (taskPairs E ?uid inp db) | Some e \<Rightarrow> [])"
    by (simp add: createImage_committed [OF assms(1,2)])
  have sn: "snd (request E c inp db) =
       background E ?uid (settlements E (started (createImage E c inp db)))
         (case createAsyncCaller E of
            None \<Rightarrow> written E ?uid inp db
          | Some e \<Rightarrow> markAllFailed E ?uid e (map snd (taskPairs E ?uid inp db))
                        (written E ?uid inp db))"
    by (simp add: request_def Let_def createImage_committed [OF assms(1,2)] taskPairs_snd
        split: option.splits)
  from tx gb written_generations [of E ?uid inp db] len r r' st sn
  show ?thesis by blast
qed

theorem response_independent_of_background_witness:
  "wf_database emptyDatabase \<and> commits exampleEnv exampleInput \<and>
   sameUntilCommit exampleEnv unluckyEnv (toLength (imageNum exampleInput)) \<and>
   sameUntilCommit exampleEnv rejectingEnv (toLength (imageNum exampleInput)) \<and>
   fst (request unluckyEnv exampleCtx exampleInput emptyDatabase) =
     fst (request exampleEnv exampleCtx exampleInput emptyDatabase) \<and>
   fst (request rejectingEnv exampleCtx exampleInput emptyDatabase) =
     fst (request exampleEnv exampleCtx exampleInput emptyDatabase) \<and>
   fst (request exampleEnv exampleCtx exampleInput emptyDatabase) =
     Inr \<lparr>success = True,
          batch = \<lparr>b_id = 0, b_userId = ''user'', b_generationTopicId = ''topic'',
                   b_provider = ''fal'', b_model = ''flux'', b_prompt = ''a cat'',
                   b_width = Some 512, b_height = Some 512,
                   b_config = exampleParams\<lparr>imageUrls := Some [''x.png'']\<rparr>\<rparr>,
          r_generations =
            [\<lparr>g_id = 1, g_userId = ''user'', g_generationBatchId = 0, g_seed = Some 7,
               g_asyncTaskId = None\<rparr>,
             \<lparr>g_id = 2, g_userId = ''user'', g_generationBatchId = 0, g_seed = Some 8,
               g_asyncTaskId = None\<rparr>]\<rparr> \<and>
   map t_status (asyncTasks (snd (request exampleEnv exampleCtx exampleInput emptyDatabase))) =
     [Pending, Pending] \<and>
   map t_status (asyncTasks (snd (request rejectingEnv exampleCtx exampleInput emptyDatabase))) =
     [Error, Pending] \<and>
   map t_status (asyncTasks (snd (request unluckyEnv exampleCtx exampleInput emptyDatabase))) =
     [Error, Pending]"
proof -
  let ?r = "request exampleEnv exampleCtx exampleInput emptyDatabase"
  have s2: "sameUntilCommit exampleEnv rejectingEnv (toLength (imageNum exampleInput))"
    by (auto simp: sameUntilCommit_def rejectingEnv_def list_all_iff)
  from response_independent_of_background
    [OF emptyDatabase_wf exampleEnv_commits sameUntilCommit_example, of exampleCtx]
  have e1: "fst (request unluckyEnv exampleCtx exampleInput emptyDatabase) = fst ?r"
    by blast
  from response_independent_of_background [OF emptyDatabase_wf exampleEnv_commits s2, of exampleCtx]
  have e2: "fst (request rejectingEnv exampleCtx exampleInput emptyDatabase) = fst ?r"
    by blast
  show ?thesis
    using emptyDatabase_wf exampleEnv_commits sameUntilCommit_example s2 e1 e2
      example_request example_request_store rejecting_request_store unlucky_request_store
    by simp
qed

text \<open>
  C6, as stated, fails: the status write of a rejected call is not guarded by the
  status of the task. In the concrete request below the calls of the tasks 3 and 4 are
  started with both tasks Pending; the remote side marks task 3 Success; the call of
  task 3 then rejects, and the continuation of the handler moves task 3 from Success
  to Error.
\<close>

theorem task_status_terminal_counterexample:
  "map taskId (started (createImage exampleEnv exampleCtx exampleInput emptyDatabase)) = [3, 4] \<and>
   map t_status (asyncTasks (store (createImage exampleEnv exampleCtx exampleInput emptyDatabase))) =
     [Pending, Pending] \<and>
   map t_status (asyncTasks
      (remoteSuccess 3 (store (createImage exampleEnv exampleCtx exampleInput emptyDatabase)))) =
     [Success, Pending] \<and>
   map t_status (asyncTasks (onSettled exampleEnv (userId exampleCtx) 3
       (Rejected (ErrorObj ''socket hang up''))
       (remoteSuccess 3 (store (createImage exampleEnv exampleCtx exampleInput emptyDatabase))))) =
     [Error, Pending]"
  using example_started example_succeeded_then_rejected
  by (simp add: example_succeeded_tasks example_store_tasks pendingTask_def)

text \<open>
  C6, amended. Let the database have fresh identifiers. Every task the transaction
  adds is Pending, and Error is the only status the handler and its continuations
  write afterwards: whatever the state of the database \<open>d\<close>, the order of the settlements
  and their number, the background work and the fallback leave the row of every task
  unchanged or set its status to Error, so they never turn Error into Success and a
  task that is Error stays Error. While only the handler and its continuations write
  the tasks, the remote calls settling in any order, each at most once (\<open>ev1\<close> first,
  then \<open>ev2\<close>), the row of every task of the database, whether of this request or
  older, is either unchanged or has moved from Pending to Error, from the commit to the
  return of the handler and from any moment of the background work to any later one:
  a task moves at most once and a task that is Success or Error never changes again.
  The write of a rejected call is unconditional, however: when its update goes
  through, the task of the call, if it belongs to the user, is Error afterwards
  whatever its status was, so that a task the remote side has marked Success moves
  from Success to Error.
\<close>

theorem task_status_terminal:
  assumes "wf_database db"
    and "schedule (started (createImage E c inp db)) (ev1 @ ev2)"
  shows "list_all (\<lambda>t. t_status t = Pending)
       (drop (length (asyncTasks db))
          (asyncTasks (snd (transaction E (createRecords E (userId c) inp) db)))) \<and>
     list_all2 taskMove
       (asyncTasks (snd (transaction E (createRecords E (userId c) inp) db)))
       (asyncTasks (store (createImage E c inp db))) \<and>
     list_all2 taskMove
       (asyncTasks (background E (userId c) ev1 (store (createImage E c inp db))))
       (asyncTasks (background E (userId c) (ev1 @ ev2) (store (createImage E c inp db)))) \<and>
     list_all2 statusWrite (asyncTasks d) (asyncTasks (background E (userId c) events d)) \<and>
     list_all2 statusWrite (asyncTasks d) (asyncTasks (markAllFailed E (userId c) e tids d)) \<and>
     (dbError E (UpdateAsyncTask tid) = None \<longrightarrow>
      map t_status (asyncTasks (onSettled E (userId c) tid (Rejected e) d)) =
        map (\<lambda>t. if t_id t = tid \<and> t_userId t = userId c then Error else t_status t)
          (asyncTasks d))"
proof -
  let ?uid = "userId c"
  let ?rows = "asyncTasks (store (createImage E c inp db))"
  have d: "distinct (map fst ev1)" "distinct (map fst ev2)"
    and disj: "set (map fst ev1) \<inter> set (map fst ev2) = {}"
    and sub: "set (map fst ev2) \<subseteq> set (map taskId (started (createImage E c inp db)))"
    using assms(2) by (auto simp: schedule_def list_all_iff)
  have ap: "backgroundRow E ?uid (ev1 @ ev2) t =
      backgroundRow E ?uid ev2 (backgroundRow E ?uid ev1 t)" for t
    by (simp add: backgroundRow_def)
  have id1: "t_id (backgroundRow E ?uid ev1 t) = t_id t" for t
    unfolding backgroundRow_def by (induction ev1 arbitrary: t) simp_all
  have "taskMove (backgroundRow E ?uid ev1 t) (backgroundRow E ?uid (ev1 @ ev2) t)"
    if t: "t \<in> set ?rows" for t
    unfolding ap
  proof (rule backgroundRow_move [OF d(2)])
    assume m: "t_id (backgroundRow E ?uid ev1 t) \<in> set (map fst ev2)"
    then have m2: "t_id t \<in> set (map fst ev2)" unfolding id1 .
    with disj have "t_id t \<notin> set (map fst ev1)" by auto
    then have same: "backgroundRow E ?uid ev1 t = t" by (rule backgroundRow_other)
    from m2 sub have "t_id t \<in> set (map taskId (started (createImage E c inp db)))" by auto
    from started_tasks_pending [OF assms(1) t this]
    show "t_status (backgroundRow E ?uid ev1 t) = Pending" unfolding same .
  qed
  then have "list_all2 taskMove
       (asyncTasks (background E ?uid ev1 (store (createImage E c inp db))))
       (asyncTasks (background E ?uid (ev1 @ ev2) (store (createImage E c inp db))))"
    unfolding background_rows by (simp add: list_all2_map1 list_all2_map2 list_all2_same)
  with created_pending [OF assms(1)] handler_moves [OF assms(1)]
    background_writes [of d E ?uid events] markAllFailed_writes [of d E ?uid e tids]
    rejected_statuses [of E tid ?uid e d]
  show ?thesis by simp
qed

theorem task_status_terminal_witness:
  "wf_database emptyDatabase \<and>
   schedule (started (createImage exampleEnv exampleCtx exampleInput emptyDatabase))
     ([(3, Rejected (ErrorObj ''boom''))] @ [(4, Rejected (Other None))]) \<and>
   dbError exampleEnv (UpdateAsyncTask 4) = None \<and>
   list_all2 taskMove
     (asyncTasks (background exampleEnv (userId exampleCtx) [(3, Rejected (ErrorObj ''boom''))]
        (store (createImage exampleEnv exampleCtx exampleInput emptyDatabase))))
     (asyncTasks (background exampleEnv (userId exampleCtx)
        ([(3, Rejected (ErrorObj ''boom''))] @ [(4, Rejected (Other None))])
        (store (createImage exampleEnv exampleCtx exampleInput emptyDatabase)))) \<and>
   map t_status
     (asyncTasks (background exampleEnv (userId exampleCtx) [(3, Rejected (ErrorObj ''boom''))]
        (store (createImage exampleEnv exampleCtx exampleInput emptyDatabase)))) =
     [Error, Pending] \<and>
   map t_status
     (asyncTasks (background exampleEnv (userId exampleCtx)
        ([(3, Rejected (ErrorObj ''boom''))] @ [(4, Rejected (Other None))])
        (store (createImage exampleEnv exampleCtx exampleInput emptyDatabase)))) =
     [Error, Error] \<and>
   list_all2 statusWrite
     (asyncTasks (remoteSuccess 4 (store (createImage exampleEnv exampleCtx exampleInput emptyDatabase))))
     (asyncTasks (background exampleEnv (userId exampleCtx)
        [(4, Rejected (Other None)), (4, Rejected (ErrorObj ''again''))]
        (remoteSuccess 4 (store (createImage exampleEnv exampleCtx exampleInput emptyDatabase))))) \<and>
   map t_status
     (asyncTasks (remoteSuccess 4 (store (createImage exampleEnv exampleCtx exampleInput emptyDatabase)))) =
     [Pending, Success] \<and>
   map t_status
     (asyncTasks (onSettled exampleEnv (userId exampleCtx) 4 (Rejected (Other None))
        (remoteSuccess 4 (store (createImage exampleEnv exampleCtx exampleInput emptyDatabase))))) =
     [Pending, Error]"
proof -
  let ?out = "createImage exampleEnv exampleCtx exampleInput emptyDatabase"
  let ?d = "remoteSuccess 4 (store ?out)"
  have h: "schedule (started ?out)
     ([(3, Rejected (ErrorObj ''boom''))] @ [(4, Rejected (Other None))])"
    by (simp add: schedule_def example_started)
  have ok: "dbError exampleEnv op = None" for op by (simp add: exampleEnv_def)
  have s1: "map t_status (asyncTasks (background exampleEnv (userId exampleCtx)
        [(3, Rejected (ErrorObj ''boom''))] (store ?out))) = [Error, Pending]"
    unfolding background_rows example_store_tasks
    by (simp add: backgroundRow_def settleRow_def ok setStatus_def pendingTask_def example_facts)
  have s2: "map t_status (asyncTasks (background exampleEnv (userId exampleCtx)
        ([(3, Rejected (ErrorObj ''boom''))] @ [(4, Rejected (Other None))]) (store ?out))) =
      [Error, Error]"
    unfolding background_rows example_store_tasks
    by (simp add: backgroundRow_def settleRow_def ok setStatus_def pendingTask_def example_facts)
  have d: "asyncTasks ?d = [pendingTask ''user'' 3, (pendingTask ''user'' 4)\<lparr>t_status := Success\<rparr>]"
    by (simp add: remoteSuccess_def example_store_tasks pendingTask_def)
  note t = task_status_terminal [OF emptyDatabase_wf h, of ?d
      "[(4, Rejected (Other None)), (4, Rejected (ErrorObj ''again''))]" "Other None" "[]" 4]
  from t have m: "list_all2 taskMove
     (asyncTasks (background exampleEnv (userId exampleCtx) [(3, Rejected (ErrorObj ''boom''))]
        (store ?out)))
     (asyncTasks (background exampleEnv (userId exampleCtx)
        ([(3, Rejected (ErrorObj ''boom''))] @ [(4, Rejected (Other None))]) (store ?out)))"
    by blast
  from t have w: "list_all2 statusWrite (asyncTasks ?d)
     (asyncTasks (background exampleEnv (userId exampleCtx)
        [(4, Rejected (Other None)), (4, Rejected (ErrorObj ''again''))] ?d))"
    by blast
  from t ok [of "UpdateAsyncTask 4"]
  have "map t_status (asyncTasks (onSettled exampleEnv (userId exampleCtx) 4
        (Rejected (Other None)) ?d)) =
      map (\<lambda>t. if t_id t = 4 \<and> t_userId t = userId exampleCtx then Error else t_status t)
        (asyncTasks ?d)"
    by simp
  then have r: "map t_status (asyncTasks (onSettled exampleEnv (userId exampleCtx) 4
        (Rejected (Other None)) ?d)) = [Pending, Error]"
    unfolding d by (simp add: pendingTask_def example_facts)
  have p: "map t_status (asyncTasks ?d) = [Pending, Success]"
    unfolding d by (simp add: pendingTask_def)
  from emptyDatabase_wf h ok [of "UpdateAsyncTask 4"] m s1 s2 w p r
  show ?thesis by blast
qed

text \<open>
  C7. Let the transaction go through and the number of images be a count. The
  request writes exactly \<open>imageNum\<close> generation rows. When the parameters have no
  key \<open>seed\<close>, the seed of every one of them is null. When they have the key, and
  \<open>generateUniqueSeeds\<close> keeps its contract (it returns as many seeds as asked for,
  pairwise distinct), the seeds of the generations are, in the order of creation, the
  seeds it returned, hence pairwise distinct.
\<close>

theorem createImage_seeds:
  assumes "wf_database db" and "commits E inp" and "0 \<le> imageNum inp"
  shows "\<exists>gs.
     generations (store (createImage E c inp db)) = generations db @ gs \<and>
     int (length gs) = imageNum inp \<and>
     (case seed (params inp) of
        None \<Rightarrow> map g_seed gs = replicate (length gs) None
      | Some v \<Rightarrow>
          (length (generateUniqueSeeds E (imageNum inp)) = length gs \<and>
           distinct (generateUniqueSeeds E (imageNum inp)) \<longrightarrow>
           map g_seed gs = map Some (generateUniqueSeeds E (imageNum inp)) \<and>
           distinct (map g_seed gs)))"
proof -
  let ?N = "toLength (imageNum inp)"
  let ?gs = "map (linkedGeneration E (userId c) inp db) [0..<?N]"
  have len: "int (length ?gs) = imageNum inp"
    using assms(3) by (simp add: toLength_def)
  have sd: "map g_seed ?gs = map (seedAt (seeds E (imageNum inp) (params inp))) [0..<?N]"
    by (rule linked_seeds)
  have "case seed (params inp) of
        None \<Rightarrow> map g_seed ?gs = replicate (length ?gs) None
      | Some v \<Rightarrow>
          (length (generateUniqueSeeds E (imageNum inp)) = length ?gs \<and>
           distinct (generateUniqueSeeds E (imageNum inp)) \<longrightarrow>
           map g_seed ?gs = map Some (generateUniqueSeeds E (imageNum inp)) \<and>
           distinct (map g_seed ?gs))"
  proof (cases "seed (params inp)")
    case None
    then have "seeds E (imageNum inp) (params inp) = replicate ?N None"
      by (simp add: seeds_def)
    then have "map g_seed ?gs = replicate ?N None"
      unfolding sd using seedAt_all [of "replicate ?N None"] by simp
    then show ?thesis using None by simp
  next
    case (Some v)
    have "map g_seed ?gs = map Some (generateUniqueSeeds E (imageNum inp)) \<and>
           distinct (map g_seed ?gs)"
      if l: "length (generateUniqueSeeds E (imageNum inp)) = length ?gs"
        and d: "distinct (generateUniqueSeeds E (imageNum inp))"
    proof -
      have s: "seeds E (imageNum inp) (params inp) = map Some (generateUniqueSeeds E (imageNum inp))"
        using Some by (simp add: seeds_def)
      have "?N = length (map Some (generateUniqueSeeds E (imageNum inp)))" using l by simp
      then have "map g_seed ?gs = map Some (generateUniqueSeeds E (imageNum inp))"
        unfolding sd s using seedAt_all [of "map Some (generateUniqueSeeds E (imageNum inp))"]
        by metis
      then show ?thesis using d by (simp add: distinct_map)
    qed
    then show ?thesis unfolding Some option.case by blast
  qed
  with store_generations [OF assms(1,2), of c] len show ?thesis by blast
qed

theorem createImage_seeds_witness:
  "wf_database emptyDatabase \<and> commits exampleEnv exampleInput \<and> 0 \<le> imageNum exampleInput \<and>
   commits exampleEnv seedlessInput \<and> 0 \<le> imageNum seedlessInput \<and>
   map g_seed (generations (store (createImage exampleEnv exampleCtx exampleInput emptyDatabase))) =
     [Some 7, Some 8] \<and>
   map g_seed (generations (store (createImage exampleEnv exampleCtx seedlessInput emptyDatabase))) =
     [None, None]"
proof -
  have n: "0 \<le> imageNum exampleInput" "imageNum exampleInput = 2"
    "0 \<le> imageNum seedlessInput" "imageNum seedlessInput = 2"
    "seed (params exampleInput) = Some None" "seed (params seedlessInput) = None"
    by (simp_all add: exampleInput_def seedlessInput_def exampleParams_def)
  have c2: "commits exampleEnv seedlessInput"
    using exampleEnv_commits by (simp add: commits_def seedlessInput_def exampleInput_def)
  let ?out = "createImage exampleEnv exampleCtx exampleInput emptyDatabase"
  let ?out' = "createImage exampleEnv exampleCtx seedlessInput emptyDatabase"
  from createImage_seeds [OF emptyDatabase_wf exampleEnv_commits n(1), of exampleCtx]
  obtain gs where g: "generations (store ?out) = generations emptyDatabase @ gs"
    and l: "int (length gs) = imageNum exampleInput"
    and c: "case seed (params exampleInput) of
        None \<Rightarrow> map g_seed gs = replicate (length gs) None
      | Some v \<Rightarrow>
          (length (generateUniqueSeeds exampleEnv (imageNum exampleInput)) = length gs \<and>
           distinct (generateUniqueSeeds exampleEnv (imageNum exampleInput)) \<longrightarrow>
           map g_seed gs = map Some (generateUniqueSeeds exampleEnv (imageNum exampleInput)) \<and>
           distinct (map g_seed gs))"
    by blast
  have "length gs = 2" using l n(2) by simp
  with c have "map g_seed gs = [Some 7, Some 8]"
    unfolding n(5) n(2) option.case by (simp add: example_seeds)
  then have r1: "map g_seed (generations (store ?out)) = [Some 7, Some 8]"
    unfolding g by (simp add: example_facts)
  from createImage_seeds [OF emptyDatabase_wf c2 n(3), of exampleCtx]
  obtain gs' where g': "generations (store ?out') = generations emptyDatabase @ gs'"
    and l': "int (length gs') = imageNum seedlessInput"
    and c': "case seed (params seedlessInput) of
        None \<Rightarrow> map g_seed gs' = replicate (length gs') None
      | Some v \<Rightarrow>
          (length (generateUniqueSeeds exampleEnv (imageNum seedlessInput)) = length gs' \<and>
           distinct (generateUniqueSeeds exampleEnv (imageNum seedlessInput)) \<longrightarrow>
           map g_seed gs' = map Some (generateUniqueSeeds exampleEnv (imageNum seedlessInput)) \<and>
           distinct (map g_seed gs'))"
    by blast
  have "length gs' = 2" using l' n(4) by simp
  with c' have "map g_seed gs' = [None, None]"
    unfolding n(6) option.case by (simp add: numeral_2_eq_2)
  then have r2: "map g_seed (generations (store ?out')) = [None, None]"
    unfolding g' by (simp add: example_facts)
  from emptyDatabase_wf exampleEnv_commits n(1,3) c2 r1 r2 show ?thesis by simp
qed

text \<open>
  C8. Let the parameters carry a list of image URLs and let the transaction go
  through. Then the request succeeds and writes one batch row. When the storage-key
  resolver succeeds on every URL, the configuration stored with the batch is the
  parameters with the list of the resolved keys in place of the URLs; when it throws
  on some URL, the stored configuration is the parameters unchanged, URLs included.
\<close>

theorem createImage_batch_config:
  assumes "wf_database db" and "commits E inp" and "imageUrls (params inp) = Some urls"
  shows "\<exists>b gs.
     response (createImage E c inp db) = Inr \<lparr>success = True, batch = b, r_generations = gs\<rparr> \<and>
     generationBatches (store (createImage E c inp db)) = generationBatches db @ [b] \<and>
     b_config b =
       (if list_all (\<lambda>url. \<not> isl (getKeyFromFullUrl E url)) urls
        then (params inp)\<lparr>imageUrls := Some (map (\<lambda>url. projr (getKeyFromFullUrl E url)) urls)\<rparr>
        else params inp)"
proof -
  have cfg: "configForDatabase E (params inp) =
       (if list_all (\<lambda>url. \<not> isl (getKeyFromFullUrl E url)) urls
        then (params inp)\<lparr>imageUrls := Some (map (\<lambda>url. projr (getKeyFromFullUrl E url)) urls)\<rparr>
        else params inp)"
  proof (cases "list_all (\<lambda>url. \<not> isl (getKeyFromFullUrl E url)) urls")
    case True
    show ?thesis
    proof (cases "urls = []")
      case True
      then show ?thesis using assms(3) by (simp add: configForDatabase_def)
    next
      case False
      then show ?thesis using assms(3) True
        by (simp add: configForDatabase_def mapThrowing_ok)
    qed
  next
    case False
    from mapThrowing_fail [OF False] obtain e where
      "mapThrowing (getKeyFromFullUrl E) urls = Inl e" by (auto simp: isl_def)
    then show ?thesis using assms(3) False by (simp add: configForDatabase_def)
  qed
  have b: "generationBatches (store (createImage E c inp db)) =
      generationBatches db @ [newBatch E (userId c) inp db]"
    by (simp add: createImage_committed [OF assms(1,2)] markAllFailed_frame written_def
        split: option.splits)
  have "b_config (newBatch E (userId c) inp db) = configForDatabase E (params inp)"
    by (simp add: newBatch_def)
  with cfg b show ?thesis
    by (simp add: createImage_committed [OF assms(1,2)])
qed

theorem createImage_batch_config_witness:
  "wf_database emptyDatabase \<and> commits exampleEnv exampleInput \<and>
   imageUrls (params exampleInput) = Some [''https://cdn/x.png''] \<and>
   commits exampleEnv localInput \<and>
   imageUrls (params localInput) = Some [''https://cdn/x.png'', ''blob:local''] \<and>
   (\<exists>b gs. response (createImage exampleEnv exampleCtx exampleInput emptyDatabase) =
        Inr \<lparr>success = True, batch = b, r_generations = gs\<rparr> \<and>
      imageUrls (b_config b) = Some [''x.png'']) \<and>
   (\<exists>b gs. response (createImage exampleEnv exampleCtx localInput emptyDatabase) =
        Inr \<lparr>success = True, batch = b, r_generations = gs\<rparr> \<and>
      imageUrls (b_config b) = Some [''https://cdn/x.png'', ''blob:local''])"
proof -
  have u1: "imageUrls (params exampleInput) = Some [''https://cdn/x.png'']"
    by (simp add: exampleInput_def exampleParams_def)
  have u2: "imageUrls (params localInput) = Some [''https://cdn/x.png'', ''blob:local'']"
    by (simp add: localInput_def)
  have c2: "commits exampleEnv localInput"
    using exampleEnv_commits by (simp add: commits_def localInput_def exampleInput_def)
  have k1: "getKeyFromFullUrl exampleEnv ''https://cdn/x.png'' = Inr ''x.png''"
    and k2: "getKeyFromFullUrl exampleEnv ''blob:local'' = Inl (ErrorObj ''Invalid URL'')"
    by (simp_all add: exampleEnv_def storageKey_def)
  from createImage_batch_config [OF emptyDatabase_wf exampleEnv_commits u1, of exampleCtx]
  have r1: "\<exists>b gs. response (createImage exampleEnv exampleCtx exampleInput emptyDatabase) =
        Inr \<lparr>success = True, batch = b, r_generations = gs\<rparr> \<and>
      imageUrls (b_config b) = Some [''x.png'']"
    by (auto simp: k1)
  from createImage_batch_config [OF emptyDatabase_wf c2 u2, of exampleCtx]
  have r2: "\<exists>b gs. response (createImage exampleEnv exampleCtx localInput emptyDatabase) =
        Inr \<lparr>success = True, batch = b, r_generations = gs\<rparr> \<and>
      imageUrls (b_config b) = Some [''https://cdn/x.png'', ''blob:local'']"
    by (auto simp: k1 k2 u2)
  from emptyDatabase_wf exampleEnv_commits u1 c2 u2 r1 r2 show ?thesis by blast
qed

text \<open>
  C9, as stated, fails: when constructing the remote-call client throws, the
  transaction has created the pairs and no remote call is issued for any of them.
  In the concrete request below two generations are linked to the tasks 3 and 4 and
  the list of started calls is empty.
\<close>

theorem createImage_calls_counterexample:
  "commits callerDownEnv exampleInput \<and>
   map g_asyncTaskId
     (generations (store (createImage callerDownEnv exampleCtx exampleInput emptyDatabase))) =
     [Some 3, Some 4] \<and>
   started (createImage callerDownEnv exampleCtx exampleInput emptyDatabase) = []"
proof -
  have c: "commits callerDownEnv exampleInput"
    using exampleEnv_commits by (simp add: commits_def callerDownEnv_def)
  have d: "createAsyncCaller callerDownEnv = Some (ErrorObj ''no caller'')"
    by (simp add: callerDownEnv_def)
  have m: "map (\<lambda>ga. Some (snd ga)) (taskPairs callerDownEnv ''user'' exampleInput emptyDatabase) =
      [Some 3, Some 4]"
    using arg_cong [OF example_pairs(1) [of callerDownEnv "''user''"], of "map Some"]
    by (simp add: comp_def)
  have "map g_asyncTaskId
     (generations (store (createImage callerDownEnv exampleCtx exampleInput emptyDatabase))) =
     [Some 3, Some 4]"
    unfolding createImage_committed [OF emptyDatabase_wf c]
    by (simp add: d markAllFailed_frame written_generations comp_def example_facts m)
  moreover have "started (createImage callerDownEnv exampleCtx exampleInput emptyDatabase) = []"
    unfolding createImage_committed [OF emptyDatabase_wf c] by (simp add: d)
  ultimately show ?thesis using c by simp
qed

text \<open>
  C9, amended. Let the transaction go through. When the remote-call client is
  constructed, the handler starts exactly one remote call per (generation, task) pair
  of the transaction, in the order of the pairs: the call of a pair carries the
  identifier of its task and of its generation, the provider, the model and the
  parameters of the request as they came in, whereas the batch stores the rewritten
  configuration. The tasks of the pairs are pairwise distinct, and so are the
  generations. When constructing the client throws, no call is started.
\<close>

theorem createImage_calls:
  assumes "wf_database db" and "commits E inp"
  shows "\<exists>b pairs db'.
     transaction E (createRecords E (userId c) inp) db = (Inr (b, pairs), db') \<and>
     length pairs = toLength (imageNum inp) \<and>
     generations db' =
       generations db @ map (\<lambda>ga. (fst ga)\<lparr>g_asyncTaskId := Some (snd ga)\<rparr>) pairs \<and>
     distinct (map snd pairs) \<and>
     distinct (map (g_id \<circ> fst) pairs) \<and>
     b_config b = configForDatabase E (params inp) \<and>
     started (createImage E c inp db) =
       (if createAsyncCaller E = None
        then map (\<lambda>ga. \<lparr>taskId = snd ga, generationId = g_id (fst ga),
                          c_provider = provider inp, c_model = model inp,
                          c_params = params inp\<rparr>) pairs
        else [])"
proof -
  let ?uid = "userId c"
  have tx: "transaction E (createRecords E ?uid inp) db =
      (Inr (newBatch E ?uid inp db, taskPairs E ?uid inp db), written E ?uid inp db)"
    by (rule transaction_commits [OF assms])
  have len: "length (taskPairs E ?uid inp db) = toLength (imageNum inp)"
    by (simp add: taskPairs_def)
  have cfg: "b_config (newBatch E ?uid inp db) = configForDatabase E (params inp)"
    by (simp add: newBatch_def)
  have st: "started (createImage E c inp db) =
       (if createAsyncCaller E = None
        then map (\<lambda>ga. \<lparr>taskId = snd ga, generationId = g_id (fst ga),
                          c_provider = provider inp, c_model = model inp,
                          c_params = params inp\<rparr>) (taskPairs E ?uid inp db)
        else [])"
    by (auto simp: createImage_committed [OF assms] callFor_def)
  from tx len written_generations [of E ?uid inp db] taskPairs_distinct [of E ?uid inp db] cfg st
  show ?thesis by blast
qed

theorem createImage_calls_witness:
  "wf_database emptyDatabase \<and> commits exampleEnv exampleInput \<and>
   map taskId (started (createImage exampleEnv exampleCtx exampleInput emptyDatabase)) = [3, 4] \<and>
   map generationId (started (createImage exampleEnv exampleCtx exampleInput emptyDatabase)) = [1, 2] \<and>
   map (imageUrls \<circ> c_params) (started (createImage exampleEnv exampleCtx exampleInput emptyDatabase)) =
     [Some [''https://cdn/x.png''], Some [''https://cdn/x.png'']]"
proof -
  let ?out = "createImage exampleEnv exampleCtx exampleInput emptyDatabase"
  have ex: "createAsyncCaller exampleEnv = None" by (simp add: exampleEnv_def)
  from createImage_calls [OF emptyDatabase_wf exampleEnv_commits, of exampleCtx]
  obtain b pairs and db' :: database where
    tx: "transaction exampleEnv (createRecords exampleEnv (userId exampleCtx) exampleInput)
        emptyDatabase = (Inr (b, pairs), db')"
    and st: "started ?out =
       map (\<lambda>ga. \<lparr>taskId = snd ga, generationId = g_id (fst ga),
                          c_provider = provider exampleInput, c_model = model exampleInput,
                          c_params = params exampleInput\<rparr>) pairs"
    unfolding ex by auto
  have p: "pairs = taskPairs exampleEnv (userId exampleCtx) exampleInput emptyDatabase"
    using tx transaction_commits [OF emptyDatabase_wf exampleEnv_commits, of "userId exampleCtx"]
    by simp
  have t: "map taskId (started ?out) = [3, 4]"
    unfolding st p by (simp add: comp_def example_pairs [unfolded comp_def])
  have g: "map generationId (started ?out) = [1, 2]"
    unfolding st p by (simp add: comp_def example_pairs [unfolded comp_def])
  have "map (imageUrls \<circ> c_params) (started ?out) =
      map (\<lambda>ga. Some [''https://cdn/x.png'']) pairs"
    unfolding st by (simp add: comp_def example_facts exampleParams_def)
  also have "\<dots> = replicate (length (map snd pairs)) (Some [''https://cdn/x.png''])"
    by (simp add: map_replicate_const)
  also have "\<dots> = [Some [''https://cdn/x.png''], Some [''https://cdn/x.png'']]"
    unfolding p example_pairs by (simp add: numeral_2_eq_2)
  finally show ?thesis using emptyDatabase_wf exampleEnv_commits t g by simp
qed

text \<open>
  C10. Let the transaction go through and the parameters have the key \<open>seed\<close>, with
  any value \<open>v\<close>, null included. Then the seeds of the generations are read off the
  list \<open>generateUniqueSeeds imageNum\<close>, in which \<open>v\<close> does not occur: a request with
  another value \<open>v'\<close> for the key gives the generations the same seeds.
\<close>

theorem seed_value_ignored:
  assumes "wf_database db" and "commits E inp"
  shows "\<exists>gs.
     generations (store (createImage E c (withSeed v inp) db)) = generations db @ gs \<and>
     map g_seed gs =
       map (seedAt (map Some (generateUniqueSeeds E (imageNum inp))))
         [0..<toLength (imageNum inp)] \<and>
     map g_seed (generations (store (createImage E c (withSeed v' inp) db))) =
       map g_seed (generations (store (createImage E c (withSeed v inp) db)))"
proof -
  have n: "imageNum (withSeed w inp) = imageNum inp" 
    and s: "seed (params (withSeed w inp)) = Some w" for w
    by (simp_all add: withSeed_def)
  have g: "generations (store (createImage E c (withSeed w inp) db)) =
      generations db @
      map (linkedGeneration E (userId c) (withSeed w inp) db) [0..<toLength (imageNum inp)]"
    for w
    using store_generations [OF assms(1), of E "withSeed w inp" c] assms(2)
    by (simp add: commits_withSeed n)
  have sd: "map g_seed (map (linkedGeneration E (userId c) (withSeed w inp) db)
        [0..<toLength (imageNum inp)]) =
      map (seedAt (map Some (generateUniqueSeeds E (imageNum inp))))
         [0..<toLength (imageNum inp)]" for w
    unfolding linked_seeds n seeds_present [OF s] ..
  have "map g_seed (generations (store (createImage E c (withSeed v' inp) db))) =
       map g_seed (generations (store (createImage E c (withSeed v inp) db)))"
    unfolding g map_append sd ..
  with g [of v] sd [of v] show ?thesis by blast
qed

theorem seed_value_ignored_witness:
  "wf_database emptyDatabase \<and> commits exampleEnv exampleInput \<and>
   map g_seed (generations (store
      (createImage exampleEnv exampleCtx (withSeed None exampleInput) emptyDatabase))) =
     [Some 7, Some 8] \<and>
   map g_seed (generations (store
      (createImage exampleEnv exampleCtx (withSeed (Some 42) exampleInput) emptyDatabase))) =
     [Some 7, Some 8]"
proof -
  let ?out = "createImage exampleEnv exampleCtx (withSeed None exampleInput) emptyDatabase"
  let ?out' = "createImage exampleEnv exampleCtx (withSeed (Some 42) exampleInput) emptyDatabase"
  have sa: "map (seedAt (map Some (generateUniqueSeeds exampleEnv (imageNum exampleInput))))
         [0..<toLength (imageNum exampleInput)] = [Some 7, Some 8]"
    using seedAt_all [of "[Some 7, Some 8]"]
    by (simp add: example_seeds exampleInput_def toLength_def numeral_2_eq_2)
  from seed_value_ignored [OF emptyDatabase_wf exampleEnv_commits, of exampleCtx None "Some 42"]
  obtain gs where "generations (store ?out) = generations emptyDatabase @ gs"
    and "map g_seed gs =
       map (seedAt (map Some (generateUniqueSeeds exampleEnv (imageNum exampleInput))))
         [0..<toLength (imageNum exampleInput)]"
    and "map g_seed (generations (store ?out')) = map g_seed (generations (store ?out))"
    by blast
  then have "map g_seed (generations (store ?out)) = [Some 7, Some 8]"
    "map g_seed (generations (store ?out')) = [Some 7, Some 8]"
    by (simp_all add: sa example_facts(5))
  then show ?thesis using emptyDatabase_wf exampleEnv_commits by simp
qed

end
